theory Spec2Isabelle
  imports Main
begin

section \<open>Library functions used by the plugin\<close>

text \<open>
  Go strings are byte sequences; \<open>string\<close> is a list of 8-bit characters.
  \<open>strings.Split(s, sep)\<close> with a one-byte separator cuts \<open>s\<close> at every occurrence of
  the separator: the result has one more element than there are separators, and
  \<open>strings.Split("", sep)\<close> is the one-element list holding the empty string.
\<close>

function strings_Split :: "string \<Rightarrow> char \<Rightarrow> string list" where
  "strings_Split s sep =
     takeWhile (\<lambda>c. c \<noteq> sep) s #
       (case dropWhile (\<lambda>c. c \<noteq> sep) s of
          [] \<Rightarrow> []
        | _ # rest \<Rightarrow> strings_Split rest sep)"
  by pat_completeness auto
termination
proof (relation "measure (\<lambda>(s, sep). length s)")
  show "wf (measure (\<lambda>(s, sep). length s))" by simp
next
  fix s :: string and sep :: char and x rest
  assume "dropWhile (\<lambda>c. c \<noteq> sep) s = x # rest"
  then have "length (x # rest) \<le> length s"
    using length_dropWhile_le [of "\<lambda>c. c \<noteq> sep" s] by simp
  then show "((rest, sep), (s, sep)) \<in> measure (\<lambda>(s, sep). length s)" by simp
qed

declare strings_Split.simps [simp del]

text \<open>
  \<open>strings.SplitN(s, sep, 2)\<close>, the only use of \<open>SplitN\<close> in the plugin: at most two
  pieces, cut at the first separator.
\<close>

definition strings_SplitN_2 :: "string \<Rightarrow> char \<Rightarrow> string list" where
  "strings_SplitN_2 s sep =
     (if sep \<in> set s
      then [takeWhile (\<lambda>c. c \<noteq> sep) s, tl (dropWhile (\<lambda>c. c \<noteq> sep) s)]
      else [s])"

text \<open>
  \<open>strconv.Atoi\<close> on a 64-bit platform: an optional sign, then one or more decimal
  digits. The result is the value and whether the error is nil. On a syntax error the
  value is 0; on a range error it is the nearest bound of \<open>int64\<close>.
\<close>

definition is_digit :: "char \<Rightarrow> bool" where
  "is_digit c = (c \<in> set ''0123456789'')"

definition digit_val :: "char \<Rightarrow> int" where
  "digit_val c = of_char c - 48"

definition digits_val :: "string \<Rightarrow> int" where
  "digits_val ds = foldl (\<lambda>a c. 10 * a + digit_val c) 0 ds"

definition strconv_Atoi :: "string \<Rightarrow> int \<times> bool" where
  "strconv_Atoi s =
     (let neg = (case s of [] \<Rightarrow> False | c # _ \<Rightarrow> c = CHR ''-'');
          ds = (case s of [] \<Rightarrow> []
                | c # r \<Rightarrow> if c = CHR ''-'' \<or> c = CHR ''+'' then r else s);
          un = digits_val ds
      in if ds = [] \<or> \<not> list_all is_digit ds then (0, False)
         else if \<not> neg \<and> un \<ge> 2 ^ 63 then (2 ^ 63 - 1, False)
         else if neg \<and> un > 2 ^ 63 then (- (2 ^ 63), False)
         else (if neg then - un else un, True))"

section \<open>Data model\<close>

text \<open>
  The \<open>Settings\<close> struct. \<open>Timeout\<close> and \<open>BlockTimeout\<close> are durations in
  nanoseconds; \<open>server\<close> and \<open>params\<close> are the two unexported fields that
  \<open>Validate\<close> fills in.
\<close>

type_synonym params = "string \<Rightarrow> string option"

record Settings =
  Repos :: "string list"
  Server :: string
  Token :: string
  Wait :: bool
  Timeout :: int
  LastSuccessful :: bool
  Params :: "string list"
  ParamsEnv :: "string list"
  Deploy :: string
  Block :: bool
  BlockTimeout :: int
  server :: string
  params :: params

text \<open>The fields of \<open>drone.Build\<close> that the plugin reads.\<close>

record build =
  Number :: int
  Status :: string
  Source :: string

text \<open>
  Modelled from the spec: the build status constants of the drone-go client library,
  which is not part of this repository. The spec lists the closed set
  \<open>pending, running, passing, failing, error, killed, declined, skipped\<close>; any other
  string is an unknown, non-terminal status.
\<close>

definition StatusPending :: string where "StatusPending = ''pending''"
definition StatusRunning :: string where "StatusRunning = ''running''"
definition StatusPassing :: string where "StatusPassing = ''passing''"
definition StatusFailing :: string where "StatusFailing = ''failing''"
definition StatusError :: string where "StatusError = ''error''"
definition StatusKilled :: string where "StatusKilled = ''killed''"
definition StatusDeclined :: string where "StatusDeclined = ''declined''"
definition StatusSkipped :: string where "StatusSkipped = ''skipped''"

text \<open>
  Every error value the plugin builds, one constructor per message. The last one is
  not an error that is returned: it stands for the panic "send on closed channel" of
  the signal package, which ends the process where it happens.
\<close>

datatype error =
    NoToken
  | NoServer
  | WaitAndLastSuccessful
  | UnableToParseParams error
  | InvalidParam string
  | FileReadError string
  | ParamFromEnvNotSet string
  | UnableToParseRepo string
  | DeployNeedsSelector
  | DeployNeedsNumeric
  | TimedOutWaitingOnBuild string
  | UnableToGetBuildList string
  | UnableToGetLastSuccessful string
  | UnableToGetRequestedBuild int string
  | UnableToTriggerDeploy string string
  | UnableToGetLatestBuild string string
  | UnableToTriggerBuild string
  | CouldNotCancel int
  | TimedOutWaitingFor int
  | ClientError string
  | BuildDidNotSucceed int string
  | PanicSendOnClosedChannel

section \<open>The remote client and the trace of a run\<close>

text \<open>
  The calls the plugin makes on \<open>drone.Client\<close>, and the lines it prints. A run is
  observed through its trace: the calls and the printed lines, in order.
\<close>

datatype call =
    CallBuildList string string
  | CallBuild string string int
  | CallBuildLast string string string
  | CallPromote string string int string params
  | CallBuildRestart string string int params
  | CallBuildCancel string string int

datatype msg =
    WillRetry string int string int
  | StartingDeploy string string string int
  | RestartingBuild int string
  | WithParams params
  | BlockingUntilFinished
  | CanceledJob int
  | WaitingForBuild int string

datatype event = Call call | Out msg

type_synonym trace = "event list"

text \<open>
  The server is outside the program. Each operation of the client answers from the
  trace so far and its arguments, so an answer may change from one call to the next
  in any way; an error is the text of the Go error.
\<close>

record client =
  BuildList :: "trace \<Rightarrow> string \<Rightarrow> string \<Rightarrow> string + build list"
  Build :: "trace \<Rightarrow> string \<Rightarrow> string \<Rightarrow> int \<Rightarrow> string + build"
  BuildLast :: "trace \<Rightarrow> string \<Rightarrow> string \<Rightarrow> string \<Rightarrow> string + build"
  Promote :: "trace \<Rightarrow> string \<Rightarrow> string \<Rightarrow> int \<Rightarrow> string \<Rightarrow> params \<Rightarrow> string + build"
  BuildRestart :: "trace \<Rightarrow> string \<Rightarrow> string \<Rightarrow> int \<Rightarrow> params \<Rightarrow> string + build"
  BuildCancel :: "trace \<Rightarrow> string \<Rightarrow> string \<Rightarrow> int \<Rightarrow> string option"

text \<open>
  Time is outside the program as well. Both loops wait in a \<open>select\<close> on a ticker and
  on a timeout that fires once, so what a loop sees is some number of ticks and then
  the event that ends it: the timeout, or in the blocking loop possibly a signal.
  \<open>ticks\<close> is the number of ticks the trigger loop of one entry receives before its
  timeout, \<open>block_ticks\<close> and \<open>block_end\<close> the same for the blocking loop.
  A signal at any other moment than in a blocking loop is not part of the model.
\<close>

datatype block_end = Signal | BlockTimeout_fired

record timing =
  ticks :: nat
  block_ticks :: nat
  block_end :: block_end

section \<open>parseRepoBranch, parseParams, getServerWithDefaults, Validate\<close>

definition parseRepoBranch :: "string \<Rightarrow> string \<times> string \<times> string" where
  "parseRepoBranch repo =
     (let parts = strings_Split repo (CHR ''@'');
          branch = (if length parts = 2 then parts ! 1 else []);
          repo' = (if length parts = 2 then parts ! 0 else repo);
          parts' = strings_Split repo' (CHR ''/'');
          owner = (if length parts' = 2 then parts' ! 0 else []);
          name = (if length parts' = 2 then parts' ! 1 else [])
      in (owner, name, branch))"

text \<open>
  The file system as \<open>parseParams\<close> sees it: \<open>os.Stat\<close> says the path does not
  exist, or \<open>godotenv.Read\<close> fails with an error, or it returns the map of the file.
\<close>

datatype fsentry = NotExist | ReadFails string | EnvFile params

fun parseParams_from :: "(string \<Rightarrow> fsentry) \<Rightarrow> string list \<Rightarrow> params \<Rightarrow> error + params" where
  "parseParams_from fs [] ps = Inr ps"
| "parseParams_from fs (p # rest) ps =
     (let parts = strings_SplitN_2 p (CHR ''='')
      in if length parts = 2 then parseParams_from fs rest (ps(parts ! 0 \<mapsto> parts ! 1))
         else (case fs (parts ! 0) of
                 NotExist \<Rightarrow> Inl (InvalidParam (parts ! 0))
               | ReadFails e \<Rightarrow> Inl (FileReadError e)
               | EnvFile fileParams \<Rightarrow> parseParams_from fs rest (ps ++ fileParams)))"

definition parseParams :: "(string \<Rightarrow> fsentry) \<Rightarrow> string list \<Rightarrow> error + params" where
  "parseParams fs paramList = parseParams_from fs paramList Map.empty"

definition getServerWithDefaults :: "string \<Rightarrow> string \<Rightarrow> string \<Rightarrow> string" where
  "getServerWithDefaults srv host protocol =
     (if srv \<noteq> [] then srv
      else if host = [] \<or> protocol = [] then []
      else protocol @ ''://'' @ host)"

text \<open>The loop of \<open>Validate\<close> over \<open>ParamsEnv\<close>.\<close>

fun params_from_env :: "(string \<Rightarrow> string option) \<Rightarrow> string list \<Rightarrow> params \<Rightarrow> error + params" where
  "params_from_env env [] ps = Inr ps"
| "params_from_env env (k # ks) ps =
     (case env k of
        None \<Rightarrow> Inl (ParamFromEnvNotSet k)
      | Some v \<Rightarrow> params_from_env env ks (ps(k \<mapsto> v)))"

text \<open>
  \<open>Validate\<close> reads the settings, the host and protocol of the pipeline, the process
  environment and the file system; it returns the error, or the settings with
  \<open>server\<close> and \<open>params\<close> filled in.
\<close>

definition Validate ::
  "Settings \<Rightarrow> string \<Rightarrow> string \<Rightarrow> (string \<Rightarrow> string option) \<Rightarrow> (string \<Rightarrow> fsentry) \<Rightarrow> error + Settings"
where
  "Validate s host proto env fs =
     (if Token s = [] then Inl NoToken
      else let srv = getServerWithDefaults (Server s) host proto
      in if srv = [] then Inl NoServer
      else if Wait s \<and> LastSuccessful s then Inl WaitAndLastSuccessful
      else (case parseParams fs (Params s) of
              Inl e \<Rightarrow> Inl (UnableToParseParams e)
            | Inr ps \<Rightarrow>
               (let ps1 = (case env ''DRONE_BUILD_NUMBER'' of
                             Some upstreamBuildNumber \<Rightarrow>
                               ps(''DRONE_UPSTREAM_BUILD_NUMBER'' \<mapsto> upstreamBuildNumber)
                           | None \<Rightarrow> ps)
                in (case params_from_env env (ParamsEnv s) ps1 of
                      Inl e \<Rightarrow> Inl e
                    | Inr ps2 \<Rightarrow> Inr (s\<lparr>server := srv, params := ps2\<rparr>)))))"

section \<open>logParams and blockUntilBuildIsFinished\<close>

text \<open>
  What \<open>logParams\<close> prints: the pairs of the map, with the value of a key listed in
  \<open>paramsEnv\<close> replaced by a fixed text. Go iterates over a map in no fixed order, so
  the printed pairs are kept as a map; for the empty map nothing is printed.
\<close>

definition logParams :: "params \<Rightarrow> string list \<Rightarrow> msg" where
  "logParams ps paramsEnv =
     WithParams (\<lambda>k. case ps k of
                        None \<Rightarrow> None
                      | Some v \<Rightarrow> Some (if k \<in> set paramsEnv then ''[from-environment]'' else v))"

text \<open>
  \<open>blockUntilBuildIsFinished\<close> prints its first line, makes a channel \<open>sigs\<close> and
  registers it with \<open>signal.Notify\<close>; on return the deferred \<open>close(sigs)\<close> closes
  the channel, and nothing calls \<open>signal.Stop\<close>, so the closed channel stays
  registered for the rest of the process. The first line is printed once per call and
  nowhere else: a channel closed by an earlier call is registered exactly when that
  line is in the trace already.
\<close>

fun is_blocking_line :: "event \<Rightarrow> bool" where
  "is_blocking_line (Out BlockingUntilFinished) = True"
| "is_blocking_line ev = False"

definition closed_channel_registered :: "trace \<Rightarrow> bool" where
  "closed_channel_registered tr = list_ex is_blocking_line tr"

text \<open>
  The loop of \<open>blockUntilBuildIsFinished\<close>: \<open>n\<close> ticks are still to come before the
  event \<open>e\<close> that ends the wait; \<open>stale\<close> says that a closed channel is registered.
  The result is Go's \<open>error\<close> (\<open>None\<close> is \<open>nil\<close>) and the trace.

  A signal is sent by the signal package to every registered channel. With a closed
  channel among them that send panics and the process ends. The loop may have received
  the signal on its own channel just before; the model lets the panic win, and no
  cancel call is made.
\<close>

fun block_loop ::
  "client \<Rightarrow> bool \<Rightarrow> string \<Rightarrow> string \<Rightarrow> int \<Rightarrow> nat \<Rightarrow> block_end \<Rightarrow> trace
     \<Rightarrow> error option \<times> trace"
where
  "block_loop c stale namespace name buildNumber 0 Signal tr =
     (if stale then (Some PanicSendOnClosedChannel, tr)
      else case BuildCancel c tr namespace name buildNumber of
        Some err \<Rightarrow>
          (Some (CouldNotCancel buildNumber),
           tr @ [Call (CallBuildCancel namespace name buildNumber)])
      | None \<Rightarrow>
          (None,
           tr @ [Call (CallBuildCancel namespace name buildNumber),
                 Out (CanceledJob buildNumber)]))"
| "block_loop c stale namespace name buildNumber 0 BlockTimeout_fired tr =
     (Some (TimedOutWaitingFor buildNumber), tr)"
| "block_loop c stale namespace name buildNumber (Suc n) e tr =
     (let tr1 = tr @ [Call (CallBuild namespace name buildNumber)]
      in case Build c tr namespace name buildNumber of
           Inl err \<Rightarrow> (Some (ClientError err), tr1)
         | Inr b \<Rightarrow>
            if Status b \<in> {StatusError, StatusKilled, StatusFailing,
                             StatusDeclined, StatusSkipped}
            then (Some (BuildDidNotSucceed buildNumber (Status b)), tr1)
            else if Status b = StatusPassing then (None, tr1)
            else block_loop c stale namespace name buildNumber n e
                   (tr1 @ [Out (WaitingForBuild buildNumber (Status b))]))"

definition blockUntilBuildIsFinished ::
  "client \<Rightarrow> timing \<Rightarrow> string \<Rightarrow> string \<Rightarrow> int \<Rightarrow> trace \<Rightarrow> error option \<times> trace"
where
  "blockUntilBuildIsFinished c tm namespace name buildNumber tr =
     block_loop c (closed_channel_registered tr) namespace name buildNumber
       (block_ticks tm) (block_end tm) (tr @ [Out BlockingUntilFinished])"

section \<open>Execute\<close>

text \<open>
  What one pass through the body of the tick loop ends in: \<open>continue\<close> (or the end of
  the body) with the value of \<open>waiting\<close>, \<open>break I\<close>, or \<open>return\<close> of an error.
\<close>

datatype step = Continue bool | Break | Return error

definition running_or_pending :: "build \<Rightarrow> bool" where
  "running_or_pending b = (Status b = StatusRunning \<or> Status b = StatusPending)"

text \<open>
  The scan for the last successful build of the branch, which \<open>Execute\<close> has twice
  (in the deploy trigger and in the rebuild): the list is fetched, and the first build
  of the branch that is passing is taken.
\<close>

definition last_successful ::
  "client \<Rightarrow> string \<Rightarrow> string \<Rightarrow> string \<Rightarrow> string \<Rightarrow> trace \<Rightarrow> (error + build) \<times> trace"
where
  "last_successful c entry owner name branch tr =
     (let tr1 = tr @ [Call (CallBuildList owner name)]
      in case BuildList c tr owner name of
           Inl buildErr \<Rightarrow> (Inl (UnableToGetBuildList entry), tr1)
         | Inr builds \<Rightarrow>
            (case find (\<lambda>b. Source b = branch \<and> Status b = StatusPassing) builds of
               None \<Rightarrow> (Inl (UnableToGetLastSuccessful entry), tr1)
             | Some b \<Rightarrow> (Inr b, tr1)))"

text \<open>The build a deploy refers to: the first part of the deploy trigger.\<close>

definition deploy_build ::
  "Settings \<Rightarrow> client \<Rightarrow> string \<Rightarrow> string \<Rightarrow> string \<Rightarrow> string \<Rightarrow> trace \<Rightarrow> (error + build) \<times> trace"
where
  "deploy_build s c entry owner name branch tr =
     (if LastSuccessful s then last_successful c entry owner name branch tr
      else let buildNumber = fst (strconv_Atoi branch);
               tr1 = tr @ [Call (CallBuild owner name buildNumber)]
           in case Build c tr owner name buildNumber of
                Inl err \<Rightarrow> (Inl (UnableToGetRequestedBuild buildNumber entry), tr1)
              | Inr b \<Rightarrow> (Inr b, tr1))"

text \<open>After a trigger that succeeded: block if asked to, then leave the tick loop.\<close>

definition triggered ::
  "Settings \<Rightarrow> client \<Rightarrow> timing \<Rightarrow> string \<Rightarrow> string \<Rightarrow> build \<Rightarrow> trace \<Rightarrow> step \<times> trace"
where
  "triggered s c tm owner name newBuild tr =
     (if Block s
      then (case blockUntilBuildIsFinished c tm owner name (Number newBuild) tr of
              (Some err, tr') \<Rightarrow> (Return err, tr')
            | (None, tr') \<Rightarrow> (Break, tr'))
      else (Break, tr))"

text \<open>
  The rebuild: the body of the tick loop from \<open>client.BuildLast\<close> to its end.
\<close>

definition rebuild ::
  "Settings \<Rightarrow> client \<Rightarrow> timing \<Rightarrow> string \<Rightarrow> string \<Rightarrow> string \<Rightarrow> string \<Rightarrow> bool \<Rightarrow> trace
     \<Rightarrow> step \<times> trace"
where
  "rebuild s c tm entry owner name branch waiting tr =
     (let tr1 = tr @ [Call (CallBuildLast owner name branch)]
      in case BuildLast c tr owner name branch of
           Inl err \<Rightarrow>
             if waiting then (Continue waiting, tr1)
             else (Return (UnableToGetLatestBuild entry err), tr1)
         | Inr b \<Rightarrow>
             if Wait s \<and> \<not> waiting \<and> running_or_pending b
             then (Continue True,
                   tr1 @ [Out (WillRetry entry (Number b) (Status b) (Timeout s))])
             else
               (case (if LastSuccessful s \<and> Status b \<noteq> StatusPassing
                      then last_successful c entry owner name branch tr1
                      else (Inr b, tr1)) of
                  (Inl e, tr2) \<Rightarrow> (Return e, tr2)
                | (Inr b', tr2) \<Rightarrow>
                    if \<not> running_or_pending b' \<or> \<not> Wait s
                    then
                      (let tr3 = tr2 @ [Call (CallBuildRestart owner name (Number b') (params s))]
                       in case BuildRestart c tr2 owner name (Number b') (params s) of
                            Inl err \<Rightarrow>
                              if waiting then (Continue waiting, tr3)
                              else (Return (UnableToTriggerBuild entry), tr3)
                          | Inr newBuild \<Rightarrow>
                              triggered s c tm owner name newBuild
                                (tr3 @ [Out (RestartingBuild (Number b') entry),
                                        Out (logParams (params s) (ParamsEnv s))]))
                    else (Continue waiting, tr2)))"

text \<open>
  One pass through the body of the tick loop on a tick: the deploy trigger first, which
  runs on into the rebuild when it neither continues, returns nor breaks.
\<close>

definition tick ::
  "Settings \<Rightarrow> client \<Rightarrow> timing \<Rightarrow> string \<Rightarrow> string \<Rightarrow> string \<Rightarrow> string \<Rightarrow> bool \<Rightarrow> trace
     \<Rightarrow> step \<times> trace"
where
  "tick s c tm entry owner name branch waiting tr =
     (if Deploy s \<noteq> []
      then
        (case deploy_build s c entry owner name branch tr of
           (Inl e, tr1) \<Rightarrow> (Return e, tr1)
         | (Inr b, tr1) \<Rightarrow>
             if Wait s \<and> \<not> waiting \<and> running_or_pending b
             then (Continue True,
                   tr1 @ [Out (WillRetry entry (Number b) (Status b) (Timeout s))])
             else if \<not> running_or_pending b \<or> \<not> Wait s
             then
               (let tr2 = tr1 @ [Call (CallPromote owner name (Number b) (Deploy s) (params s))]
                in case Promote c tr1 owner name (Number b) (Deploy s) (params s) of
                     Inl err \<Rightarrow>
                       if waiting then (Continue waiting, tr2)
                       else (Return (UnableToTriggerDeploy entry err), tr2)
                   | Inr newBuild \<Rightarrow>
                       triggered s c tm owner name newBuild
                         (tr2 @ [Out (StartingDeploy owner name (Deploy s) (Number b)),
                                 Out (logParams (params s) (ParamsEnv s))]))
             else rebuild s c tm entry owner name branch waiting tr1)
      else rebuild s c tm entry owner name branch waiting tr)"

text \<open>
  The tick loop of one entry, with \<open>n\<close> ticks to come before the timeout fires.
\<close>

fun tick_loop ::
  "Settings \<Rightarrow> client \<Rightarrow> timing \<Rightarrow> string \<Rightarrow> string \<Rightarrow> string \<Rightarrow> string \<Rightarrow> nat \<Rightarrow> bool \<Rightarrow> trace
     \<Rightarrow> error option \<times> trace"
where
  "tick_loop s c tm entry owner name branch 0 waiting tr =
     (Some (TimedOutWaitingOnBuild entry), tr)"
| "tick_loop s c tm entry owner name branch (Suc n) waiting tr =
     (case tick s c tm entry owner name branch waiting tr of
        (Continue w, tr') \<Rightarrow> tick_loop s c tm entry owner name branch n w tr'
      | (Break, tr') \<Rightarrow> (None, tr')
      | (Return e, tr') \<Rightarrow> (Some e, tr'))"

text \<open>
  The loop of \<open>Execute\<close> over the entries; \<open>tms i\<close> is the timing of the entry at
  position \<open>i\<close>. The client is the one \<open>Execute\<close> builds from the server and token.
\<close>

fun Execute_from ::
  "Settings \<Rightarrow> client \<Rightarrow> (nat \<Rightarrow> timing) \<Rightarrow> nat \<Rightarrow> string list \<Rightarrow> trace \<Rightarrow> error option \<times> trace"
where
  "Execute_from s c tms i [] tr = (None, tr)"
| "Execute_from s c tms i (entry # rest) tr =
     (case parseRepoBranch entry of
        (owner, name, branch) \<Rightarrow>
          if owner = [] \<or> name = [] then (Some (UnableToParseRepo entry), tr)
          else if Deploy s \<noteq> [] \<and> branch = [] then (Some DeployNeedsSelector, tr)
          else if Deploy s \<noteq> [] \<and> \<not> snd (strconv_Atoi branch) \<and> \<not> LastSuccessful s
          then (Some DeployNeedsNumeric, tr)
          else
            (case tick_loop s c (tms i) entry owner name branch (ticks (tms i)) False tr of
               (Some e, tr') \<Rightarrow> (Some e, tr')
             | (None, tr') \<Rightarrow> Execute_from s c tms (Suc i) rest tr'))"

definition Execute :: "Settings \<Rightarrow> client \<Rightarrow> (nat \<Rightarrow> timing) \<Rightarrow> error option \<times> trace" where
  "Execute s c tms = Execute_from s c tms 0 (Repos s) []"

section \<open>States that the two loops come to\<close>

text \<open>
  Where the tick loop stands after \<open>k\<close> passes through its body that all ended in
  \<open>continue\<close> (or at the end of the body): the value of \<open>waiting\<close> and the trace.
  \<open>None\<close> when one of the passes ended the loop.
\<close>

fun after_ticks ::
  "Settings \<Rightarrow> client \<Rightarrow> timing \<Rightarrow> string \<Rightarrow> string \<Rightarrow> string \<Rightarrow> string \<Rightarrow> nat \<Rightarrow> bool \<Rightarrow> trace
     \<Rightarrow> (bool \<times> trace) option"
where
  "after_ticks s c tm entry owner name branch 0 waiting tr = Some (waiting, tr)"
| "after_ticks s c tm entry owner name branch (Suc k) waiting tr =
     (case tick s c tm entry owner name branch waiting tr of
        (Continue w, tr') \<Rightarrow> after_ticks s c tm entry owner name branch k w tr'
      | (Break, tr') \<Rightarrow> None
      | (Return e, tr') \<Rightarrow> None)"

text \<open>
  The trace of the blocking loop after \<open>j\<close> ticks at each of which the fetch answered
  with a build that is neither passing nor in a failed status. \<open>None\<close> when one of the
  fetches failed or found such a status.
\<close>

fun block_after_ticks ::
  "client \<Rightarrow> string \<Rightarrow> string \<Rightarrow> int \<Rightarrow> nat \<Rightarrow> trace \<Rightarrow> trace option"
where
  "block_after_ticks c namespace name buildNumber 0 tr = Some tr"
| "block_after_ticks c namespace name buildNumber (Suc j) tr =
     (case Build c tr namespace name buildNumber of
        Inl err \<Rightarrow> None
      | Inr b \<Rightarrow>
          if Status b \<in> {StatusError, StatusKilled, StatusFailing,
                           StatusDeclined, StatusSkipped, StatusPassing}
          then None
          else block_after_ticks c namespace name buildNumber j
                 (tr @ [Call (CallBuild namespace name buildNumber),
                        Out (WaitingForBuild buildNumber (Status b))]))"

text \<open>The events of a trace that are cancel requests.\<close>

fun is_cancel :: "event \<Rightarrow> bool" where
  "is_cancel (Call (CallBuildCancel namespace name number)) = True"
| "is_cancel ev = False"

section \<open>A mock server for concrete runs\<close>

text \<open>
  A mock client in the manner of the plugin's tests: every fetch answers with the
  build \<open>b tr\<close>, which may depend on the trace so far; the list holds that one build;
  every trigger succeeds and answers with a new pending build; cancel succeeds.
\<close>

definition mock :: "(trace \<Rightarrow> build) \<Rightarrow> client" where
  "mock b =
     \<lparr>BuildList = (\<lambda>tr owner name. Inr [b tr]),
      Build = (\<lambda>tr owner name number. Inr (b tr)),
      BuildLast = (\<lambda>tr owner name branch. Inr (b tr)),
      Promote = (\<lambda>tr owner name number target ps.
                   Inr \<lparr>Number = number + 1, Status = StatusPending, Source = Source (b tr)\<rparr>),
      BuildRestart = (\<lambda>tr owner name number ps.
                   Inr \<lparr>Number = number + 1, Status = StatusPending, Source = Source (b tr)\<rparr>),
      BuildCancel = (\<lambda>tr owner name number. None)\<rparr>"

definition build7 :: "string \<Rightarrow> build" where
  "build7 st = \<lparr>Number = 7, Status = st, Source = ''main''\<rparr>"

definition settings0 :: Settings where
  "settings0 =
     \<lparr>Repos = [], Server = ''https://drone.example.com'', Token = ''secret'',
      Wait = False, Timeout = 60000000000, LastSuccessful = False,
      Params = [], ParamsEnv = [], Deploy = [], Block = False,
      BlockTimeout = 3600000000000, server = ''https://drone.example.com'',
      params = Map.empty\<rparr>"

definition timing0 :: timing where
  "timing0 = \<lparr>ticks = 5, block_ticks = 2, block_end = BlockTimeout_fired\<rparr>"

text \<open>A server whose triggers fail, for concrete runs.\<close>

definition failing_triggers :: "client \<Rightarrow> client" where
  "failing_triggers c =
     c\<lparr>Promote := (\<lambda>tr owner name number target ps. Inl ''503''),
       BuildRestart := (\<lambda>tr owner name number ps. Inl ''503'')\<rparr>"

text \<open>The fetch by number fails once the trace has \<open>k\<close> events or more.\<close>

definition failing_fetch_from :: "nat \<Rightarrow> client \<Rightarrow> client" where
  "failing_fetch_from k c =
     c\<lparr>Build := (\<lambda>tr owner name number.
                   if k \<le> length tr then Inl ''503'' else Build c tr owner name number)\<rparr>"

text \<open>The fetch by number answers with a running build of that number.\<close>

definition running_by_number :: "client \<Rightarrow> client" where
  "running_by_number c =
     c\<lparr>Build := (\<lambda>tr owner name number.
                   Inr \<lparr>Number = number, Status = StatusRunning, Source = ''main''\<rparr>)\<rparr>"

text \<open>An environment of the process, and a file system with no files.\<close>

definition env42 :: "string \<Rightarrow> string option" where
  "env42 = [''DRONE_BUILD_NUMBER'' \<mapsto> ''42'', ''DRONE_UPSTREAM_BUILD_NUMBER'' \<mapsto> ''9'']"

definition no_files :: "string \<Rightarrow> fsentry" where
  "no_files = (\<lambda>path. NotExist)"

section \<open>Facts about the library functions\<close>

lemma strings_Split_none:
  assumes "sep \<notin> set s"
  shows "strings_Split s sep = [s]"
proof -
  from assms have a: "\<forall>x\<in>set s. x \<noteq> sep" by auto
  have t: "takeWhile (\<lambda>c. c \<noteq> sep) s = s" using a by simp
  have d: "dropWhile (\<lambda>c. c \<noteq> sep) s = []" using a by simp
  show ?thesis by (subst strings_Split.simps) (simp only: t d list.case)
qed


lemma strings_Split_Nil: "strings_Split [] sep = [[]]"
  by (simp add: strings_Split_none)

lemma strings_Split_Cons:
  "strings_Split (x # xs) sep =
     (if x = sep then [] # strings_Split xs sep
      else (x # hd (strings_Split xs sep)) # tl (strings_Split xs sep))"
  by (subst strings_Split.simps, subst (2 3) strings_Split.simps) (simp split: list.splits)


text \<open>Unfolding a run on concrete settings, client and timing.\<close>

lemmas status_defs =
  StatusPending_def StatusRunning_def StatusPassing_def StatusFailing_def
  StatusError_def StatusKilled_def StatusDeclined_def StatusSkipped_def

lemmas parse_eval = strings_Split_Nil strings_Split_Cons parseRepoBranch_def

lemmas run_eval =
  Execute_def tick_def rebuild_def triggered_def deploy_build_def last_successful_def
  running_or_pending_def logParams_def blockUntilBuildIsFinished_def
  closed_channel_registered_def
  mock_def build7_def settings0_def timing0_def status_defs eval_nat_numeral

lemmas fix_eval =
  failing_triggers_def failing_fetch_from_def
  running_by_number_def strconv_Atoi_def digits_val_def digit_val_def is_digit_def

lemmas all_eval = parse_eval run_eval fix_eval

section \<open>The target parser\<close>




section \<open>Settings validation\<close>

lemma params_from_env_lookup:
  "params_from_env env ks ps = Inr ps' \<Longrightarrow> ps' k = (if k \<in> set ks then env k else ps k)"
proof (induction ks arbitrary: ps)
  case Nil
  then show ?case by simp
next
  case (Cons a ks)
  then show ?case by (auto split: option.splits)
qed

lemma params_from_env_error:
  "params_from_env env ks ps = Inl e \<Longrightarrow> \<exists>k. e = ParamFromEnvNotSet k"
  by (induction ks arbitrary: ps) (auto split: option.splits)

lemma params_from_env_succeeds:
  "\<forall>k\<in>set ks. env k \<noteq> None \<Longrightarrow> \<exists>ps'. params_from_env env ks ps = Inr ps'"
  by (induction ks arbitrary: ps) (auto split: option.splits)

lemmas validate_eval =
  Validate_def parseParams_def strings_SplitN_2_def getServerWithDefaults_def
  settings0_def env42_def no_files_def Let_def

text \<open>
  C9. With \<open>wait\<close> and \<open>lastSuccessful\<close> both true, \<open>Validate\<close> returns an error
  whatever the other settings, the environment and the files are; when a token and a
  server are there (so that the two earlier checks pass), the error is the one of this
  check. With at most one of the two flags set, \<open>Validate\<close> never returns the error of
  this check, and when moreover a token and a server are there, the parameters parse
  and every key of \<open>ParamsEnv\<close> is set in the environment, it succeeds.
\<close>

theorem Validate_wait_and_last_successful:
  "(Wait s \<and> LastSuccessful s \<longrightarrow>
      (\<exists>e. Validate s host proto env fs = Inl e)
      \<and> (Token s \<noteq> [] \<and> getServerWithDefaults (Server s) host proto \<noteq> [] \<longrightarrow>
           Validate s host proto env fs = Inl WaitAndLastSuccessful))
   \<and> (\<not> (Wait s \<and> LastSuccessful s) \<longrightarrow>
      Validate s host proto env fs \<noteq> Inl WaitAndLastSuccessful
      \<and> (Token s \<noteq> [] \<and> getServerWithDefaults (Server s) host proto \<noteq> []
           \<and> (\<exists>ps. parseParams fs (Params s) = Inr ps)
           \<and> (\<forall>k\<in>set (ParamsEnv s). env k \<noteq> None) \<longrightarrow>
           (\<exists>s'. Validate s host proto env fs = Inr s')))"
proof (intro conjI impI)
  assume b: "Wait s \<and> LastSuccessful s"
  then show "\<exists>e. Validate s host proto env fs = Inl e"
    by (simp add: Validate_def Let_def)
  assume "Token s \<noteq> [] \<and> getServerWithDefaults (Server s) host proto \<noteq> []"
  with b show "Validate s host proto env fs = Inl WaitAndLastSuccessful"
    by (simp add: Validate_def Let_def)
next
  assume nb: "\<not> (Wait s \<and> LastSuccessful s)"
  show "Validate s host proto env fs \<noteq> Inl WaitAndLastSuccessful"
    using nb by (auto simp: Validate_def Let_def split: sum.splits option.splits
        dest: params_from_env_error)
  assume ok: "Token s \<noteq> [] \<and> getServerWithDefaults (Server s) host proto \<noteq> []
           \<and> (\<exists>ps. parseParams fs (Params s) = Inr ps)
           \<and> (\<forall>k\<in>set (ParamsEnv s). env k \<noteq> None)"
  then obtain ps where ps: "parseParams fs (Params s) = Inr ps" by blast
  define ps1 where "ps1 = (case env ''DRONE_BUILD_NUMBER'' of
                             Some upstreamBuildNumber \<Rightarrow>
                               ps(''DRONE_UPSTREAM_BUILD_NUMBER'' \<mapsto> upstreamBuildNumber)
                           | None \<Rightarrow> ps)"
  from ok obtain ps2 where "params_from_env env (ParamsEnv s) ps1 = Inr ps2"
    using params_from_env_succeeds [of "ParamsEnv s" env ps1] by blast
  then show "\<exists>s'. Validate s host proto env fs = Inr s'"
    using ok nb ps by (simp add: Validate_def Let_def ps1_def)
qed

theorem Validate_wait_and_last_successful_witness:
  "Validate (settings0\<lparr>Wait := True, LastSuccessful := True\<rparr>) [] [] env42 no_files
     = Inl WaitAndLastSuccessful
   \<and> (\<exists>s'. Validate (settings0\<lparr>Wait := True\<rparr>) [] [] env42 no_files = Inr s')"
proof -
  let ?both = "settings0\<lparr>Wait := True, LastSuccessful := True\<rparr>"
  let ?one = "settings0\<lparr>Wait := True\<rparr>"
  have 1: "Wait ?both \<and> LastSuccessful ?both" by (simp add: settings0_def)
  have 2: "Token ?both \<noteq> [] \<and> getServerWithDefaults (Server ?both) [] [] \<noteq> []"
    by (simp add: validate_eval)
  have 3: "\<not> (Wait ?one \<and> LastSuccessful ?one)" by (simp add: settings0_def)
  have 4: "Token ?one \<noteq> [] \<and> getServerWithDefaults (Server ?one) [] [] \<noteq> []
           \<and> (\<exists>ps. parseParams no_files (Params ?one) = Inr ps)
           \<and> (\<forall>k\<in>set (ParamsEnv ?one). env42 k \<noteq> None)"
    by (simp add: validate_eval)
  show ?thesis
    using Validate_wait_and_last_successful [of ?both "[]" "[]" env42 no_files]
      Validate_wait_and_last_successful [of ?one "[]" "[]" env42 no_files] 1 2 3 4
    by blast
qed

text \<open>
  C3 (amended). When \<open>DRONE_BUILD_NUMBER\<close> is set and \<open>Validate\<close> succeeds, the final
  mapping holds its value under \<open>DRONE_UPSTREAM_BUILD_NUMBER\<close>, unless that key is
  listed in \<open>ParamsEnv\<close>, in which case it holds the value of the environment variable
  of that name. The value is inserted after the literal and file-sourced parameters and
  before the ones from \<open>ParamsEnv\<close>: only the latter override it.
\<close>

theorem Validate_upstream_build_number:
  assumes "env ''DRONE_BUILD_NUMBER'' = Some v"
    and "Validate s host proto env fs = Inr s'"
  shows "params s' ''DRONE_UPSTREAM_BUILD_NUMBER'' =
           (if ''DRONE_UPSTREAM_BUILD_NUMBER'' \<in> set (ParamsEnv s)
            then env ''DRONE_UPSTREAM_BUILD_NUMBER'' else Some v)"
proof -
  from assms obtain ps ps2 where
    ps: "parseParams fs (Params s) = Inr ps"
    and ps2: "params_from_env env (ParamsEnv s)
                (ps(''DRONE_UPSTREAM_BUILD_NUMBER'' \<mapsto> v)) = Inr ps2"
    and s': "s' = s\<lparr>server := getServerWithDefaults (Server s) host proto, params := ps2\<rparr>"
    by (auto simp: Validate_def Let_def split: if_splits sum.splits)
  show ?thesis
    unfolding s' using params_from_env_lookup [OF ps2, of "''DRONE_UPSTREAM_BUILD_NUMBER''"]
    by simp
qed

theorem Validate_upstream_build_number_witness:
  "env42 ''DRONE_BUILD_NUMBER'' = Some ''42''
   \<and> Validate (settings0\<lparr>ParamsEnv := [''DRONE_UPSTREAM_BUILD_NUMBER'']\<rparr>)
         [] [] env42 no_files
       = Inr (settings0\<lparr>ParamsEnv := [''DRONE_UPSTREAM_BUILD_NUMBER''],
                params := [''DRONE_UPSTREAM_BUILD_NUMBER'' \<mapsto> ''9'']\<rparr>)
   \<and> params (settings0\<lparr>ParamsEnv := [''DRONE_UPSTREAM_BUILD_NUMBER''],
                params := [''DRONE_UPSTREAM_BUILD_NUMBER'' \<mapsto> ''9'']\<rparr>)
         ''DRONE_UPSTREAM_BUILD_NUMBER'' = Some ''9''
   \<and> Validate (settings0\<lparr>Params := [''A=1'']\<rparr>) [] [] env42 no_files
       = Inr (settings0\<lparr>Params := [''A=1''],
                params := [''A'' \<mapsto> ''1'', ''DRONE_UPSTREAM_BUILD_NUMBER'' \<mapsto> ''42'']\<rparr>)
   \<and> params (settings0\<lparr>Params := [''A=1''],
                params := [''A'' \<mapsto> ''1'', ''DRONE_UPSTREAM_BUILD_NUMBER'' \<mapsto> ''42'']\<rparr>)
         ''DRONE_UPSTREAM_BUILD_NUMBER'' = Some ''42''"
proof -
  have e: "env42 ''DRONE_BUILD_NUMBER'' = Some ''42''" by (simp add: env42_def)
  have v1: "Validate (settings0\<lparr>ParamsEnv := [''DRONE_UPSTREAM_BUILD_NUMBER'']\<rparr>)
              [] [] env42 no_files
            = Inr (settings0\<lparr>ParamsEnv := [''DRONE_UPSTREAM_BUILD_NUMBER''],
                     params := [''DRONE_UPSTREAM_BUILD_NUMBER'' \<mapsto> ''9'']\<rparr>)"
    by (simp add: validate_eval)
  have v2: "Validate (settings0\<lparr>Params := [''A=1'']\<rparr>) [] [] env42 no_files
            = Inr (settings0\<lparr>Params := [''A=1''],
                     params := [''A'' \<mapsto> ''1'', ''DRONE_UPSTREAM_BUILD_NUMBER'' \<mapsto> ''42'']\<rparr>)"
    by (simp add: validate_eval)
  have r1: "params (settings0\<lparr>ParamsEnv := [''DRONE_UPSTREAM_BUILD_NUMBER''],
                params := [''DRONE_UPSTREAM_BUILD_NUMBER'' \<mapsto> ''9'']\<rparr>)
         ''DRONE_UPSTREAM_BUILD_NUMBER'' = Some ''9''"
    using Validate_upstream_build_number [OF e v1] by (simp add: env42_def settings0_def)
  have r2: "params (settings0\<lparr>Params := [''A=1''],
                params := [''A'' \<mapsto> ''1'', ''DRONE_UPSTREAM_BUILD_NUMBER'' \<mapsto> ''42'']\<rparr>)
         ''DRONE_UPSTREAM_BUILD_NUMBER'' = Some ''42''"
    using Validate_upstream_build_number [OF e v2] by (simp add: env42_def settings0_def)
  from e v1 r1 v2 r2 show ?thesis by blast
qed

text \<open>
  C3 as the spec has it fails: a literal parameter with the key
  \<open>DRONE_UPSTREAM_BUILD_NUMBER\<close> does not override the injected value, it is
  overwritten by it. With the literal \<open>DRONE_UPSTREAM_BUILD_NUMBER=5\<close> and build
  number 42 in the environment, the final mapping holds 42.
\<close>

theorem literal_does_not_override_upstream_build_number:
  "(case Validate (settings0\<lparr>Params := [''DRONE_UPSTREAM_BUILD_NUMBER=5'']\<rparr>)
           [] [] env42 no_files of
      Inl e \<Rightarrow> None
    | Inr s' \<Rightarrow> params s' ''DRONE_UPSTREAM_BUILD_NUMBER'') = Some ''42''"
  by (simp add: validate_eval)

section \<open>Facts about the tick loop\<close>

lemma tick_loop_Return:
  "tick s c tm entry owner name branch waiting tr = (Return x, tr') \<Longrightarrow>
   tick_loop s c tm entry owner name branch (Suc n) waiting tr = (Some x, tr')"
  by simp

lemma tick_loop_Continue:
  "tick s c tm entry owner name branch waiting tr = (Continue w, tr') \<Longrightarrow>
   tick_loop s c tm entry owner name branch (Suc n) waiting tr
     = tick_loop s c tm entry owner name branch n w tr'"
  by simp

lemma tick_loop_triggered:
  "tick s c tm entry owner name branch waiting tr = triggered s c tm owner name newBuild tr1 \<Longrightarrow>
   tick_loop s c tm entry owner name branch (Suc n) waiting tr
     = (if Block s then blockUntilBuildIsFinished c tm owner name (Number newBuild) tr1
        else (None, tr1))"
  by (simp add: triggered_def split: prod.splits option.splits)

lemma Execute_from_entry:
  assumes "parseRepoBranch entry = (owner, name, branch)" "owner \<noteq> []" "name \<noteq> []"
    and "Deploy s \<noteq> [] \<longrightarrow> branch \<noteq> [] \<and> (snd (strconv_Atoi branch) \<or> LastSuccessful s)"
  shows "Execute_from s c tms i (entry # rest) tr =
           (case tick_loop s c (tms i) entry owner name branch (ticks (tms i)) False tr of
              (Some e, tr') \<Rightarrow> (Some e, tr')
            | (None, tr') \<Rightarrow> Execute_from s c tms (Suc i) rest tr')"
  using assms by auto


lemma find_none: "\<forall>b\<in>set builds. \<not> P b \<Longrightarrow> find P builds = None"
  by (simp add: find_None_iff)

lemma last_successful_absent:
  assumes "BuildList c tr owner name = Inr builds"
    and "\<forall>b\<in>set builds. \<not> (Source b = branch \<and> Status b = StatusPassing)"
  shows "last_successful c entry owner name branch tr
         = (Inl (UnableToGetLastSuccessful entry), tr @ [Call (CallBuildList owner name)])"
  using assms(1) find_none [OF assms(2)] by (simp add: last_successful_def)

lemma last_successful_error:
  assumes "BuildList c tr owner name = Inl err"
  shows "last_successful c entry owner name branch tr
         = (Inl (UnableToGetBuildList entry), tr @ [Call (CallBuildList owner name)])"
  using assms by (simp add: last_successful_def)

lemma last_successful_passing:
  assumes "last_successful c entry owner name branch tr = (Inr b, tr1)"
  shows "Status b = StatusPassing"
  using assms
  by (auto simp: last_successful_def Let_def find_Some_iff split: sum.splits option.splits)

lemma passing_not_running_or_pending:
  "Status b = StatusPassing \<Longrightarrow> \<not> running_or_pending b"
  by (simp add: running_or_pending_def status_defs)

lemma block_loop_extends:
  "\<exists>more. snd (block_loop c stale namespace name buildNumber n e tr) = tr @ more"
proof (induction n arbitrary: tr)
  case 0
  then show ?case by (cases e) (auto split: option.splits)
next
  case (Suc n)
  show ?case
  proof (cases "Build c tr namespace name buildNumber")
    case (Inl err)
    then show ?thesis by (simp add: Let_def)
  next
    case (Inr b)
    let ?tr2 = "(tr @ [Call (CallBuild namespace name buildNumber)])
                  @ [Out (WaitingForBuild buildNumber (Status b))]"
    from Suc [of ?tr2] obtain more
      where "snd (block_loop c stale namespace name buildNumber n e ?tr2) = ?tr2 @ more"
      by blast
    with Inr show ?thesis by (simp add: Let_def)
  qed
qed

lemma triggered_extends:
  "\<exists>more. snd (triggered s c tm owner name newBuild tr) = tr @ more"
proof (cases "Block s")
  case True
  obtain r tr' where b: "blockUntilBuildIsFinished c tm owner name (Number newBuild) tr = (r, tr')"
    by (cases "blockUntilBuildIsFinished c tm owner name (Number newBuild) tr")
  from block_loop_extends [of c "closed_channel_registered tr" owner name "Number newBuild"
      "block_ticks tm" "block_end tm" "tr @ [Out BlockingUntilFinished]"] b
  obtain more where "tr' = tr @ Out BlockingUntilFinished # more"
    by (auto simp: blockUntilBuildIsFinished_def)
  with True b show ?thesis by (cases r) (simp_all add: triggered_def)
next
  case False
  then show ?thesis by (simp add: triggered_def)
qed

lemma last_successful_extends:
  "snd (last_successful c entry owner name branch tr) = tr @ [Call (CallBuildList owner name)]"
  by (simp add: last_successful_def Let_def split: sum.splits option.splits)

lemma rebuild_first_call:
  "\<exists>more. snd (rebuild s c tm entry owner name branch waiting tr)
            = tr @ Call (CallBuildLast owner name branch) # more"
proof (cases "BuildLast c tr owner name branch")
  case (Inl err)
  then show ?thesis by (simp add: rebuild_def Let_def)
next
  case (Inr b0)
  let ?tr1 = "tr @ [Call (CallBuildLast owner name branch)]"
  show ?thesis
  proof (cases "Wait s \<and> \<not> waiting \<and> running_or_pending b0")
    case True
    with Inr show ?thesis by (simp add: rebuild_def Let_def)
  next
    case False
    obtain r tr2 where ls: "(if LastSuccessful s \<and> Status b0 \<noteq> StatusPassing
                      then last_successful c entry owner name branch ?tr1
                      else (Inr b0, ?tr1)) = (r, tr2)"
      by (cases "(if LastSuccessful s \<and> Status b0 \<noteq> StatusPassing
                      then last_successful c entry owner name branch ?tr1
                      else (Inr b0, ?tr1))")
    then have "tr2 = ?tr1 \<or> tr2 = ?tr1 @ [Call (CallBuildList owner name)]"
      using last_successful_extends [of c entry owner name branch ?tr1]
      by (auto split: if_splits)
    then obtain m where tr2: "tr2 = tr @ Call (CallBuildLast owner name branch) # m" by auto
    have unf: "rebuild s c tm entry owner name branch waiting tr =
       (case (r, tr2) of
                  (Inl e, tr2) \<Rightarrow> (Return e, tr2)
                | (Inr b', tr2) \<Rightarrow>
                    if \<not> running_or_pending b' \<or> \<not> Wait s
                    then
                      (let tr3 = tr2 @ [Call (CallBuildRestart owner name (Number b') (params s))]
                       in case BuildRestart c tr2 owner name (Number b') (params s) of
                            Inl err \<Rightarrow>
                              if waiting then (Continue waiting, tr3)
                              else (Return (UnableToTriggerBuild entry), tr3)
                          | Inr newBuild \<Rightarrow>
                              triggered s c tm owner name newBuild
                                (tr3 @ [Out (RestartingBuild (Number b') entry),
                                        Out (logParams (params s) (ParamsEnv s))]))
                    else (Continue waiting, tr2))"
      unfolding rebuild_def Let_def using Inr False by (simp only: ls sum.case if_False)
    show ?thesis
    proof (cases r)
      case (Inl e)
      then show ?thesis using unf tr2 by simp
    next
      case r: (Inr b')
      show ?thesis
      proof (cases "BuildRestart c tr2 owner name (Number b') (params s)")
        case (Inl err)
        then show ?thesis using unf tr2 r by (simp add: Let_def)
      next
        case (Inr newBuild)
        let ?tr4 = "(tr2 @ [Call (CallBuildRestart owner name (Number b') (params s))])
                      @ [Out (RestartingBuild (Number b') entry),
                         Out (logParams (params s) (ParamsEnv s))]"
        from triggered_extends [of s c tm owner name newBuild ?tr4]
        obtain more where "snd (triggered s c tm owner name newBuild ?tr4) = ?tr4 @ more"
          by blast
        then show ?thesis using unf tr2 r Inr by (simp add: Let_def)
      qed
    qed
  qed
qed

lemma tick_promote_fails:
  assumes "Deploy s \<noteq> []"
    and "deploy_build s c entry owner name branch tr = (Inr b, tr1)"
    and "\<not> running_or_pending b \<or> \<not> Wait s"
    and "Promote c tr1 owner name (Number b) (Deploy s) (params s) = Inl err"
  shows "tick s c tm entry owner name branch waiting tr =
           (if waiting then Continue True else Return (UnableToTriggerDeploy entry err),
            tr1 @ [Call (CallPromote owner name (Number b) (Deploy s) (params s))])"
  using assms by (auto simp: tick_def Let_def)

lemma rebuild_restart_fails:
  assumes "BuildLast c tr owner name branch = Inr b0"
    and "\<not> (Wait s \<and> \<not> waiting \<and> running_or_pending b0)"
    and "(if LastSuccessful s \<and> Status b0 \<noteq> StatusPassing
          then last_successful c entry owner name branch (tr @ [Call (CallBuildLast owner name branch)])
          else (Inr b0, tr @ [Call (CallBuildLast owner name branch)])) = (Inr b, tr1)"
    and "\<not> running_or_pending b \<or> \<not> Wait s"
    and "BuildRestart c tr1 owner name (Number b) (params s) = Inl err"
  shows "rebuild s c tm entry owner name branch waiting tr =
           (if waiting then Continue True else Return (UnableToTriggerBuild entry),
            tr1 @ [Call (CallBuildRestart owner name (Number b) (params s))])"
  using assms(1,2,4,5) unfolding rebuild_def Let_def
  by (simp only: assms(3) sum.case prod.case if_False split: if_splits) auto

section \<open>The tick loop\<close>

text \<open>
  C5. The rebuild with \<open>wait\<close> set (and \<open>lastSuccessful\<close> not set, as validation
  demands): the latest build is running at the first two ticks and passing at the
  third. Then the first tick only marks the loop as waiting, the second tick makes no
  call but the fetch, and the third tick issues exactly one restart. When the restart
  succeeds, the loop is left at once, however many ticks \<open>n\<close> are still to come: what
  follows is the blocking, if asked for. (When the restart fails, the third tick still
  has made that one call, and the loop goes on.) The traces show the calls of the
  three ticks, in order.
\<close>

theorem rebuild_waits_then_restarts_once:
  assumes "Deploy s = []" "Wait s" "\<not> LastSuccessful s"
    and "BuildLast c tr owner name branch = Inr b1" "Status b1 = StatusRunning"
    and "tr1 = tr @ [Call (CallBuildLast owner name branch),
                     Out (WillRetry entry (Number b1) (Status b1) (Timeout s))]"
    and "BuildLast c tr1 owner name branch = Inr b2" "Status b2 = StatusRunning"
    and "tr2 = tr1 @ [Call (CallBuildLast owner name branch)]"
    and "BuildLast c tr2 owner name branch = Inr b3" "Status b3 = StatusPassing"
    and "tr3 = tr2 @ [Call (CallBuildLast owner name branch),
                      Call (CallBuildRestart owner name (Number b3) (params s))]"
  shows "tick s c tm entry owner name branch False tr = (Continue True, tr1)
       \<and> tick s c tm entry owner name branch True tr1 = (Continue True, tr2)
       \<and> (\<forall>newBuild. BuildRestart c (tr2 @ [Call (CallBuildLast owner name branch)])
                         owner name (Number b3) (params s) = Inr newBuild \<longrightarrow>
            tick_loop s c tm entry owner name branch (Suc (Suc (Suc n))) False tr =
              (if Block s
               then blockUntilBuildIsFinished c tm owner name (Number newBuild)
                      (tr3 @ [Out (RestartingBuild (Number b3) entry),
                              Out (logParams (params s) (ParamsEnv s))])
               else (None, tr3 @ [Out (RestartingBuild (Number b3) entry),
                                  Out (logParams (params s) (ParamsEnv s))])))
       \<and> (\<forall>err. BuildRestart c (tr2 @ [Call (CallBuildLast owner name branch)])
                         owner name (Number b3) (params s) = Inl err \<longrightarrow>
            tick s c tm entry owner name branch True tr2 = (Continue True, tr3))"
proof -
  have rp1: "running_or_pending b1" and rp2: "running_or_pending b2"
    using assms(5,8) by (simp_all add: running_or_pending_def)
  have rp3: "\<not> running_or_pending b3"
    using assms(11) by (rule passing_not_running_or_pending)
  have t1: "tick s c tm entry owner name branch False tr = (Continue True, tr1)"
    using assms(1,2,4,6) rp1 by (simp add: tick_def rebuild_def Let_def)
  have t2: "tick s c tm entry owner name branch True tr1 = (Continue True, tr2)"
    using assms(1,2,3,7,9) rp2 by (simp add: tick_def rebuild_def Let_def)
  have ok: "tick_loop s c tm entry owner name branch (Suc (Suc (Suc n))) False tr =
              (if Block s
               then blockUntilBuildIsFinished c tm owner name (Number newBuild)
                      (tr3 @ [Out (RestartingBuild (Number b3) entry),
                              Out (logParams (params s) (ParamsEnv s))])
               else (None, tr3 @ [Out (RestartingBuild (Number b3) entry),
                                  Out (logParams (params s) (ParamsEnv s))]))"
    if r: "BuildRestart c (tr2 @ [Call (CallBuildLast owner name branch)])
             owner name (Number b3) (params s) = Inr newBuild" for newBuild
  proof -
    have t3: "tick s c tm entry owner name branch True tr2
            = triggered s c tm owner name newBuild
                (tr3 @ [Out (RestartingBuild (Number b3) entry),
                        Out (logParams (params s) (ParamsEnv s))])"
      using assms(1,2,3,10,12) r rp3 by (simp add: tick_def rebuild_def Let_def)
    have "tick_loop s c tm entry owner name branch (Suc (Suc (Suc n))) False tr
        = tick_loop s c tm entry owner name branch (Suc n) True tr2"
      using t1 t2 by simp
    also have "\<dots> = (if Block s
               then blockUntilBuildIsFinished c tm owner name (Number newBuild)
                      (tr3 @ [Out (RestartingBuild (Number b3) entry),
                              Out (logParams (params s) (ParamsEnv s))])
               else (None, tr3 @ [Out (RestartingBuild (Number b3) entry),
                                  Out (logParams (params s) (ParamsEnv s))]))"
      using t3 by (rule tick_loop_triggered)
    finally show ?thesis .
  qed
  have ko: "tick s c tm entry owner name branch True tr2 = (Continue True, tr3)"
    if r: "BuildRestart c (tr2 @ [Call (CallBuildLast owner name branch)])
             owner name (Number b3) (params s) = Inl err" for err
    using assms(1,2,3,10,12) r rp3 by (simp add: tick_def rebuild_def Let_def)
  from t1 t2 ok ko show ?thesis by blast
qed

theorem rebuild_waits_then_restarts_once_witness:
  "tick_loop (settings0\<lparr>Wait := True\<rparr>)
     (mock (\<lambda>tr. build7 (if length tr < 3 then StatusRunning else StatusPassing))) timing0
     ''octo/app'' ''octo'' ''app'' [] 5 False []
   = (None,
      [Call (CallBuildLast ''octo'' ''app'' []),
       Out (WillRetry ''octo/app'' 7 StatusRunning 60000000000),
       Call (CallBuildLast ''octo'' ''app'' []),
       Call (CallBuildLast ''octo'' ''app'' []),
       Call (CallBuildRestart ''octo'' ''app'' 7 Map.empty),
       Out (RestartingBuild 7 ''octo/app''),
       Out (WithParams Map.empty)])
   \<and> tick (settings0\<lparr>Wait := True\<rparr>)
     (failing_triggers
        (mock (\<lambda>tr. build7 (if length tr < 3 then StatusRunning else StatusPassing)))) timing0
     ''octo/app'' ''octo'' ''app'' [] True
     [Call (CallBuildLast ''octo'' ''app'' []),
      Out (WillRetry ''octo/app'' 7 StatusRunning 60000000000),
      Call (CallBuildLast ''octo'' ''app'' [])]
   = (Continue True,
      [Call (CallBuildLast ''octo'' ''app'' []),
       Out (WillRetry ''octo/app'' 7 StatusRunning 60000000000),
       Call (CallBuildLast ''octo'' ''app'' []),
       Call (CallBuildLast ''octo'' ''app'' []),
       Call (CallBuildRestart ''octo'' ''app'' 7 Map.empty)])"
proof -
  let ?s = "settings0\<lparr>Wait := True\<rparr>"
  let ?c = "mock (\<lambda>tr. build7 (if length tr < 3 then StatusRunning else StatusPassing))"
  let ?f = "failing_triggers ?c"
  let ?BL = "Call (CallBuildLast ''octo'' ''app'' [])"
  let ?tr1 = "[] @ [?BL, Out (WillRetry ''octo/app'' (Number (build7 StatusRunning))
                       (Status (build7 StatusRunning)) (Timeout ?s))]"
  let ?tr2 = "?tr1 @ [?BL]"
  have 1: "Deploy ?s = []" "Wait ?s" "\<not> LastSuccessful ?s"
    by (simp_all add: all_eval)
  have 2: "BuildLast c' [] ''octo'' ''app'' [] = Inr (build7 StatusRunning)"
    "Status (build7 StatusRunning) = StatusRunning"
    "BuildLast c' ?tr1 ''octo'' ''app'' [] = Inr (build7 StatusRunning)"
    "BuildLast c' ?tr2 ''octo'' ''app'' [] = Inr (build7 StatusPassing)"
    "Status (build7 StatusPassing) = StatusPassing"
    if "c' = ?c \<or> c' = ?f" for c'
    using that by (auto simp: all_eval)
  have ok: "BuildRestart ?c (?tr2 @ [?BL]) ''octo'' ''app'' (Number (build7 StatusPassing))
              (params ?s)
     = Inr \<lparr>Number = 8, Status = StatusPending, Source = ''main''\<rparr>"
    by (simp add: all_eval)
  have ko: "BuildRestart ?f (?tr2 @ [?BL]) ''octo'' ''app'' (Number (build7 StatusPassing))
              (params ?s) = Inl ''503''"
    by (simp add: all_eval)
  have five: "(5::nat) = Suc (Suc (Suc 2))" by simp
  have c: "?c = ?c \<or> ?c = ?f" and f: "?f = ?c \<or> ?f = ?f" by simp_all
  note a = rebuild_waits_then_restarts_once [OF 1 2(1) [OF c] 2(2) [OF c] refl 2(3) [OF c] 2(2) [OF c] refl
      2(4) [OF c] 2(5) [OF c] refl, where tm = timing0 and n = 2]
  note b = rebuild_waits_then_restarts_once [OF 1 2(1) [OF f] 2(2) [OF f] refl 2(3) [OF f] 2(2) [OF f] refl
      2(4) [OF f] 2(5) [OF f] refl, where tm = timing0 and n = 2]
  show ?thesis
    unfolding five
    using a [THEN conjunct2, THEN conjunct2, THEN conjunct1, rule_format, OF ok]
      b [THEN conjunct2, THEN conjunct2, THEN conjunct2, rule_format, OF ko]
    by (simp add: settings0_def build7_def logParams_def)
qed

text \<open>
  C6. A trigger that fails: for the promote of the deploy trigger and for the restart
  of the rebuild alike, the tick loop goes on with the next tick when \<open>waiting\<close> is
  set, the trace showing the failed call and no printed line, and returns the error
  naming the entry when \<open>waiting\<close> is not set.
\<close>

theorem trigger_failure_retried_while_waiting_else_fatal:
  "(Deploy s \<noteq> []
      \<and> deploy_build s c entry owner name branch tr = (Inr b, tr1)
      \<and> (\<not> running_or_pending b \<or> \<not> Wait s)
      \<and> Promote c tr1 owner name (Number b) (Deploy s) (params s) = Inl err
    \<longrightarrow> tick_loop s c tm entry owner name branch (Suc n) waiting tr =
          (if waiting
           then tick_loop s c tm entry owner name branch n True
                  (tr1 @ [Call (CallPromote owner name (Number b) (Deploy s) (params s))])
           else (Some (UnableToTriggerDeploy entry err),
                 tr1 @ [Call (CallPromote owner name (Number b) (Deploy s) (params s))])))
   \<and> (Deploy s = []
      \<and> BuildLast c tr owner name branch = Inr b0
      \<and> \<not> (Wait s \<and> \<not> waiting \<and> running_or_pending b0)
      \<and> (if LastSuccessful s \<and> Status b0 \<noteq> StatusPassing
          then last_successful c entry owner name branch
                 (tr @ [Call (CallBuildLast owner name branch)])
          else (Inr b0, tr @ [Call (CallBuildLast owner name branch)])) = (Inr b', tr2)
      \<and> (\<not> running_or_pending b' \<or> \<not> Wait s)
      \<and> BuildRestart c tr2 owner name (Number b') (params s) = Inl err'
    \<longrightarrow> tick_loop s c tm entry owner name branch (Suc n) waiting tr =
          (if waiting
           then tick_loop s c tm entry owner name branch n True
                  (tr2 @ [Call (CallBuildRestart owner name (Number b') (params s))])
           else (Some (UnableToTriggerBuild entry),
                 tr2 @ [Call (CallBuildRestart owner name (Number b') (params s))])))"
proof (intro conjI impI)
  assume a: "Deploy s \<noteq> []
      \<and> deploy_build s c entry owner name branch tr = (Inr b, tr1)
      \<and> (\<not> running_or_pending b \<or> \<not> Wait s)
      \<and> Promote c tr1 owner name (Number b) (Deploy s) (params s) = Inl err"
  then have "tick s c tm entry owner name branch waiting tr =
           (if waiting then Continue True else Return (UnableToTriggerDeploy entry err),
            tr1 @ [Call (CallPromote owner name (Number b) (Deploy s) (params s))])"
    by (elim conjE) (rule tick_promote_fails, assumption+)
  then show "tick_loop s c tm entry owner name branch (Suc n) waiting tr =
          (if waiting
           then tick_loop s c tm entry owner name branch n True
                  (tr1 @ [Call (CallPromote owner name (Number b) (Deploy s) (params s))])
           else (Some (UnableToTriggerDeploy entry err),
                 tr1 @ [Call (CallPromote owner name (Number b) (Deploy s) (params s))]))"
    by simp
next
  assume a: "Deploy s = []
      \<and> BuildLast c tr owner name branch = Inr b0
      \<and> \<not> (Wait s \<and> \<not> waiting \<and> running_or_pending b0)
      \<and> (if LastSuccessful s \<and> Status b0 \<noteq> StatusPassing
          then last_successful c entry owner name branch
                 (tr @ [Call (CallBuildLast owner name branch)])
          else (Inr b0, tr @ [Call (CallBuildLast owner name branch)])) = (Inr b', tr2)
      \<and> (\<not> running_or_pending b' \<or> \<not> Wait s)
      \<and> BuildRestart c tr2 owner name (Number b') (params s) = Inl err'"
  then have "rebuild s c tm entry owner name branch waiting tr =
           (if waiting then Continue True else Return (UnableToTriggerBuild entry),
            tr2 @ [Call (CallBuildRestart owner name (Number b') (params s))])"
    by (elim conjE) (rule rebuild_restart_fails, assumption+)
  moreover have "tick s c tm entry owner name branch waiting tr
      = rebuild s c tm entry owner name branch waiting tr"
    using a by (simp add: tick_def)
  ultimately show "tick_loop s c tm entry owner name branch (Suc n) waiting tr =
          (if waiting
           then tick_loop s c tm entry owner name branch n True
                  (tr2 @ [Call (CallBuildRestart owner name (Number b') (params s))])
           else (Some (UnableToTriggerBuild entry),
                 tr2 @ [Call (CallBuildRestart owner name (Number b') (params s))]))"
    by simp
qed

theorem trigger_failure_retried_while_waiting_else_fatal_witness:
  "tick_loop (settings0\<lparr>Deploy := ''production''\<rparr>)
      (failing_triggers (mock (\<lambda>tr. build7 StatusPassing))) timing0
      ''octo/app@7'' ''octo'' ''app'' ''7'' (Suc 0) True []
     = (Some (TimedOutWaitingOnBuild ''octo/app@7''),
        [Call (CallBuild ''octo'' ''app'' 7),
         Call (CallPromote ''octo'' ''app'' 7 ''production'' Map.empty)])
   \<and> tick_loop (settings0\<lparr>Deploy := ''production''\<rparr>)
      (failing_triggers (mock (\<lambda>tr. build7 StatusPassing))) timing0
      ''octo/app@7'' ''octo'' ''app'' ''7'' (Suc 0) False []
     = (Some (UnableToTriggerDeploy ''octo/app@7'' ''503''),
        [Call (CallBuild ''octo'' ''app'' 7),
         Call (CallPromote ''octo'' ''app'' 7 ''production'' Map.empty)])
   \<and> tick_loop settings0
      (failing_triggers (mock (\<lambda>tr. build7 StatusPassing))) timing0
      ''octo/app'' ''octo'' ''app'' [] (Suc 0) True []
     = (Some (TimedOutWaitingOnBuild ''octo/app''),
        [Call (CallBuildLast ''octo'' ''app'' []),
         Call (CallBuildRestart ''octo'' ''app'' 7 Map.empty)])
   \<and> tick_loop settings0
      (failing_triggers (mock (\<lambda>tr. build7 StatusPassing))) timing0
      ''octo/app'' ''octo'' ''app'' [] (Suc 0) False []
     = (Some (UnableToTriggerBuild ''octo/app''),
        [Call (CallBuildLast ''octo'' ''app'' []),
         Call (CallBuildRestart ''octo'' ''app'' 7 Map.empty)])"
proof -
  let ?sD = "settings0\<lparr>Deploy := ''production''\<rparr>"
  let ?c = "failing_triggers (mock (\<lambda>tr. build7 StatusPassing))"
  have d: "Deploy ?sD \<noteq> []
      \<and> deploy_build ?sD ?c ''octo/app@7'' ''octo'' ''app'' ''7'' []
          = (Inr (build7 StatusPassing), [Call (CallBuild ''octo'' ''app'' 7)])
      \<and> (\<not> running_or_pending (build7 StatusPassing) \<or> \<not> Wait ?sD)
      \<and> Promote ?c [Call (CallBuild ''octo'' ''app'' 7)] ''octo'' ''app''
            (Number (build7 StatusPassing)) (Deploy ?sD) (params ?sD) = Inl ''503''"
    by (simp add: all_eval)
  have r: "Deploy settings0 = []
      \<and> BuildLast ?c [] ''octo'' ''app'' [] = Inr (build7 StatusPassing)
      \<and> \<not> (Wait settings0 \<and> \<not> w \<and> running_or_pending (build7 StatusPassing))
      \<and> (if LastSuccessful settings0 \<and> Status (build7 StatusPassing) \<noteq> StatusPassing
          then last_successful ?c ''octo/app'' ''octo'' ''app'' []
                 ([] @ [Call (CallBuildLast ''octo'' ''app'' [])])
          else (Inr (build7 StatusPassing), [] @ [Call (CallBuildLast ''octo'' ''app'' [])]))
         = (Inr (build7 StatusPassing), [Call (CallBuildLast ''octo'' ''app'' [])])
      \<and> (\<not> running_or_pending (build7 StatusPassing) \<or> \<not> Wait settings0)
      \<and> BuildRestart ?c [Call (CallBuildLast ''octo'' ''app'' [])] ''octo'' ''app''
            (Number (build7 StatusPassing)) (params settings0) = Inl ''503''" for w
    by (simp add: all_eval)
  note dT = trigger_failure_retried_while_waiting_else_fatal [THEN conjunct1, rule_format, OF d, of timing0 0 True]
  note dF = trigger_failure_retried_while_waiting_else_fatal [THEN conjunct1, rule_format, OF d, of timing0 0 False]
  note rT = trigger_failure_retried_while_waiting_else_fatal [THEN conjunct2, rule_format, OF r, of timing0 0]
  note rF = trigger_failure_retried_while_waiting_else_fatal [THEN conjunct2, rule_format, OF r, of timing0 0]
  show ?thesis
    using dT dF rT [of True] rF [of False] by (simp add: settings0_def build7_def)
qed

text \<open>
  C7. The rebuild with \<open>lastSuccessful\<close> set: the latest build of the branch is not
  passing, and the build list has no passing build of that branch. Then \<open>Execute\<close>
  returns the error "unable to get last successful build" for the entry at the first
  tick; the trace holds the two fetches and no trigger, and the entries after it are
  not processed.
\<close>

theorem no_successful_build_is_fatal_without_trigger:
  assumes "parseRepoBranch entry = (owner, name, branch)" "owner \<noteq> []" "name \<noteq> []"
    and "Deploy s = []" "LastSuccessful s" "\<not> (Wait s \<and> running_or_pending b0)"
    and "0 < ticks (tms i)"
    and "BuildLast c tr owner name branch = Inr b0" "Status b0 \<noteq> StatusPassing"
    and "BuildList c (tr @ [Call (CallBuildLast owner name branch)]) owner name = Inr builds"
    and "\<forall>b\<in>set builds. \<not> (Source b = branch \<and> Status b = StatusPassing)"
  shows "Execute_from s c tms i (entry # rest) tr =
           (Some (UnableToGetLastSuccessful entry),
            tr @ [Call (CallBuildLast owner name branch), Call (CallBuildList owner name)])"
proof -
  from assms(7) obtain n where n: "ticks (tms i) = Suc n" by (cases "ticks (tms i)") auto
  have "rebuild s c (tms i) entry owner name branch False tr =
          (Return (UnableToGetLastSuccessful entry),
           tr @ [Call (CallBuildLast owner name branch), Call (CallBuildList owner name)])"
    using assms(5,6,8,9) last_successful_absent [OF assms(10,11), of entry]
    by (simp add: rebuild_def Let_def)
  then have "tick s c (tms i) entry owner name branch False tr =
          (Return (UnableToGetLastSuccessful entry),
           tr @ [Call (CallBuildLast owner name branch), Call (CallBuildList owner name)])"
    using assms(4) by (simp add: tick_def)
  then have "tick_loop s c (tms i) entry owner name branch (ticks (tms i)) False tr =
          (Some (UnableToGetLastSuccessful entry),
           tr @ [Call (CallBuildLast owner name branch), Call (CallBuildList owner name)])"
    unfolding n by (rule tick_loop_Return)
  then show ?thesis
    using Execute_from_entry [OF assms(1,2,3), of s c tms i rest tr] assms(4) by simp
qed

theorem no_successful_build_is_fatal_without_trigger_witness:
  "Execute_from (settings0\<lparr>LastSuccessful := True\<rparr>) (mock (\<lambda>tr. build7 StatusFailing))
     (\<lambda>i. timing0) 0 [''octo/app@main'', ''octo/web''] []
   = (Some (UnableToGetLastSuccessful ''octo/app@main''),
      [Call (CallBuildLast ''octo'' ''app'' ''main''), Call (CallBuildList ''octo'' ''app'')])"
proof -
  let ?s = "settings0\<lparr>LastSuccessful := True\<rparr>"
  let ?c = "mock (\<lambda>tr. build7 StatusFailing)"
  have 1: "parseRepoBranch ''octo/app@main'' = (''octo'', ''app'', ''main'')"
    by (simp add: parse_eval)
  have 2: "Deploy ?s = []" "LastSuccessful ?s"
    "\<not> (Wait ?s \<and> running_or_pending (build7 StatusFailing))"
    "0 < ticks ((\<lambda>i. timing0) (0::nat))"
    by (simp_all add: all_eval)
  have 3: "BuildLast ?c [] ''octo'' ''app'' ''main'' = Inr (build7 StatusFailing)"
    "Status (build7 StatusFailing) \<noteq> StatusPassing"
    "BuildList ?c ([] @ [Call (CallBuildLast ''octo'' ''app'' ''main'')]) ''octo'' ''app''
       = Inr [build7 StatusFailing]"
    "\<forall>b\<in>set [build7 StatusFailing]. \<not> (Source b = ''main'' \<and> Status b = StatusPassing)"
    by (simp_all add: all_eval)
  show ?thesis
    using no_successful_build_is_fatal_without_trigger [OF 1 _ _ 2 3, where rest = "[''octo/web'']"] by simp
qed

text \<open>
  C1 does not hold of the code. In the deploy trigger with \<open>wait\<close> set, on a tick where
  \<open>waiting\<close> is already true and the build of the deploy is running or pending,
  neither of the two conditions of the deploy trigger holds, and the body runs on into
  the rebuild: the tick is the rebuild from the trace after the fetch, so it always
  makes one more fetch, of the latest build of the branch named like the selector, and
  may restart that build.
\<close>

theorem deploy_wait_tick_falls_through_to_rebuild:
  assumes "Deploy s \<noteq> []" "Wait s"
    and "deploy_build s c entry owner name branch tr = (Inr b, tr1)"
    and "running_or_pending b"
  shows "tick s c tm entry owner name branch True tr
           = rebuild s c tm entry owner name branch True tr1
       \<and> (\<exists>more. snd (tick s c tm entry owner name branch True tr)
                    = tr1 @ Call (CallBuildLast owner name branch) # more)"
proof -
  have t: "tick s c tm entry owner name branch True tr
           = rebuild s c tm entry owner name branch True tr1"
    using assms by (simp add: tick_def)
  with rebuild_first_call [of s c tm entry owner name branch True tr1]
  show ?thesis by simp
qed

text \<open>
  A run on the entry \<open>octo/app@42\<close> with deploy target \<open>production\<close> and \<open>wait\<close>:
  build 42 is running at both ticks; the second tick fetches the latest build of the
  branch \<open>42\<close> as well, finds build 7 passing, and restarts build 7.
\<close>

theorem deploy_wait_tick_falls_through_to_rebuild_witness:
  "Execute (settings0\<lparr>Repos := [''octo/app@42''], Deploy := ''production'', Wait := True\<rparr>)
     (running_by_number (mock (\<lambda>tr. build7 StatusPassing))) (\<lambda>i. timing0)
   = (None,
      [Call (CallBuild ''octo'' ''app'' 42),
       Out (WillRetry ''octo/app@42'' 42 StatusRunning 60000000000),
       Call (CallBuild ''octo'' ''app'' 42),
       Call (CallBuildLast ''octo'' ''app'' ''42''),
       Call (CallBuildRestart ''octo'' ''app'' 7 Map.empty),
       Out (RestartingBuild 7 ''octo/app@42''),
       Out (WithParams Map.empty)])"
proof -
  let ?s = "settings0\<lparr>Repos := [''octo/app@42''], Deploy := ''production'', Wait := True\<rparr>"
  let ?c = "running_by_number (mock (\<lambda>tr. build7 StatusPassing))"
  let ?b = "\<lparr>Number = 42, Status = StatusRunning, Source = ''main''\<rparr>"
  let ?tr0 = "[Call (CallBuild ''octo'' ''app'' 42),
               Out (WillRetry ''octo/app@42'' 42 StatusRunning 60000000000)]"
  let ?tr1 = "[Call (CallBuild ''octo'' ''app'' 42),
               Out (WillRetry ''octo/app@42'' 42 StatusRunning 60000000000),
               Call (CallBuild ''octo'' ''app'' 42)]"
  let ?tr2 = "[Call (CallBuild ''octo'' ''app'' 42),
               Out (WillRetry ''octo/app@42'' 42 StatusRunning 60000000000),
               Call (CallBuild ''octo'' ''app'' 42),
               Call (CallBuildLast ''octo'' ''app'' ''42''),
               Call (CallBuildRestart ''octo'' ''app'' 7 Map.empty),
               Out (RestartingBuild 7 ''octo/app@42''),
               Out (WithParams Map.empty)]"
  have t1: "tick ?s ?c timing0 ''octo/app@42'' ''octo'' ''app'' ''42'' False [] = (Continue True, ?tr0)"
    by (simp add: all_eval)
  have h: "Deploy ?s \<noteq> []" "Wait ?s"
    "deploy_build ?s ?c ''octo/app@42'' ''octo'' ''app'' ''42'' ?tr0 = (Inr ?b, ?tr1)"
    "running_or_pending ?b"
    by (simp_all add: all_eval)
  have t2: "tick ?s ?c timing0 ''octo/app@42'' ''octo'' ''app'' ''42'' True ?tr0
      = rebuild ?s ?c timing0 ''octo/app@42'' ''octo'' ''app'' ''42'' True ?tr1"
    using deploy_wait_tick_falls_through_to_rebuild [OF h, of timing0] by simp
  have t3: "rebuild ?s ?c timing0 ''octo/app@42'' ''octo'' ''app'' ''42'' True ?tr1
      = (Break, ?tr2)"
    by (simp add: all_eval)
  have p: "parseRepoBranch ''octo/app@42'' = (''octo'', ''app'', ''42'')"
    by (simp add: parse_eval)
  have a: "snd (strconv_Atoi ''42'')" by (simp add: fix_eval)
  have loop: "tick_loop ?s ?c timing0 ''octo/app@42'' ''octo'' ''app'' ''42'' (Suc (Suc n)) False []
      = (None, ?tr2)" for n
    by (simp add: t1 t2 t3)
  have rp: "Repos ?s = [''octo/app@42'']" "Deploy ?s \<noteq> []" by (simp_all add: settings0_def)
  show ?thesis
    unfolding Execute_def rp(1)
    using loop [of 3] by (simp add: p a rp(2) timing0_def)
qed

text \<open>
  The deploy trigger with \<open>lastSuccessful\<close> set. The body returns on an error of the
  build-list fetch, and on a list with no passing build of the branch, without looking
  at \<open>waiting\<close>. A tick that starts with \<open>waiting\<close> false never ends in \<open>continue\<close>,
  since the build that the scan finds is passing: on this path the loop of an entry
  ends at its first tick, and no run of \<open>Execute\<close> has a tick with \<open>waiting\<close> true
  there. (C2 speaks of a build-list error met in the waiting state of this path.)
\<close>

lemma deploy_last_successful_never_waits:
  assumes "Deploy s \<noteq> []" "LastSuccessful s"
  shows "(BuildList c tr owner name = Inl err \<longrightarrow>
            tick_loop s c tm entry owner name branch (Suc n) waiting tr =
              (Some (UnableToGetBuildList entry), tr @ [Call (CallBuildList owner name)]))
       \<and> (BuildList c tr owner name = Inr builds
            \<and> (\<forall>b\<in>set builds. \<not> (Source b = branch \<and> Status b = StatusPassing)) \<longrightarrow>
            tick_loop s c tm entry owner name branch (Suc n) waiting tr =
              (Some (UnableToGetLastSuccessful entry), tr @ [Call (CallBuildList owner name)]))
       \<and> (\<forall>w tr'. tick s c tm entry owner name branch False tr \<noteq> (Continue w, tr'))"
proof (intro conjI impI allI)
  assume "BuildList c tr owner name = Inl err"
  then have "tick s c tm entry owner name branch waiting tr =
      (Return (UnableToGetBuildList entry), tr @ [Call (CallBuildList owner name)])"
    using assms last_successful_error [of c tr owner name err entry branch]
    by (simp add: tick_def deploy_build_def)
  then show "tick_loop s c tm entry owner name branch (Suc n) waiting tr =
              (Some (UnableToGetBuildList entry), tr @ [Call (CallBuildList owner name)])"
    by (rule tick_loop_Return)
next
  assume "BuildList c tr owner name = Inr builds
            \<and> (\<forall>b\<in>set builds. \<not> (Source b = branch \<and> Status b = StatusPassing))"
  then have "last_successful c entry owner name branch tr
         = (Inl (UnableToGetLastSuccessful entry), tr @ [Call (CallBuildList owner name)])"
    by (elim conjE) (rule last_successful_absent, assumption+)
  then have "tick s c tm entry owner name branch waiting tr =
      (Return (UnableToGetLastSuccessful entry), tr @ [Call (CallBuildList owner name)])"
    using assms by (simp add: tick_def deploy_build_def)
  then show "tick_loop s c tm entry owner name branch (Suc n) waiting tr =
              (Some (UnableToGetLastSuccessful entry), tr @ [Call (CallBuildList owner name)])"
    by (rule tick_loop_Return)
next
  fix w tr'
  obtain r tr1 where ls: "last_successful c entry owner name branch tr = (r, tr1)"
    by (cases "last_successful c entry owner name branch tr")
  show "tick s c tm entry owner name branch False tr \<noteq> (Continue w, tr')"
  proof (cases r)
    case (Inl e)
    with ls assms show ?thesis by (simp add: tick_def deploy_build_def)
  next
    case (Inr b)
    with ls have "Status b = StatusPassing" by (simp add: last_successful_passing)
    then have nrp: "\<not> running_or_pending b" by (rule passing_not_running_or_pending)
    show ?thesis
      using ls Inr assms nrp
      by (auto simp: tick_def deploy_build_def triggered_def Let_def
          split: sum.splits prod.splits option.splits)
  qed
qed

section \<open>Facts about runs that block\<close>

lemma tick_loop_after:
  "after_ticks s c tm entry owner name branch k w tr = Some (w', tr') \<Longrightarrow>
   tick_loop s c tm entry owner name branch (k + n) w tr
     = tick_loop s c tm entry owner name branch n w' tr'"
proof (induction k arbitrary: w tr)
  case 0
  then show ?case by simp
next
  case (Suc k)
  obtain st tr1 where t: "tick s c tm entry owner name branch w tr = (st, tr1)"
    by (cases "tick s c tm entry owner name branch w tr")
  with Suc.prems obtain w1 where st: "st = Continue w1"
    by (cases st) auto
  from Suc.prems t st
  have "after_ticks s c tm entry owner name branch k w1 tr1 = Some (w', tr')" by simp
  from Suc.IH [OF this] t st show ?case by simp
qed

lemma block_loop_after:
  "block_after_ticks c namespace name buildNumber j tr = Some tr' \<Longrightarrow>
   block_loop c stale namespace name buildNumber (j + n) e tr
     = block_loop c stale namespace name buildNumber n e tr'"
proof (induction j arbitrary: tr)
  case 0
  then show ?case by simp
next
  case (Suc j)
  then show ?case
    by (cases "Build c tr namespace name buildNumber") (auto simp: Let_def split: if_splits)
qed

lemma block_after_ticks_no_cancel:
  "block_after_ticks c namespace name buildNumber j tr = Some tr' \<Longrightarrow>
   \<exists>suf. tr' = tr @ suf \<and> filter is_cancel suf = []"
proof (induction j arbitrary: tr)
  case 0
  then show ?case by simp
next
  case (Suc j)
  then obtain b where b: "Build c tr namespace name buildNumber = Inr b"
    and r: "block_after_ticks c namespace name buildNumber j
              (tr @ [Call (CallBuild namespace name buildNumber),
                     Out (WaitingForBuild buildNumber (Status b))]) = Some tr'"
    by (cases "Build c tr namespace name buildNumber") (auto split: if_splits)
  from Suc.IH [OF r] obtain suf where
    "tr' = (tr @ [Call (CallBuild namespace name buildNumber),
                  Out (WaitingForBuild buildNumber (Status b))]) @ suf"
    "filter is_cancel suf = []" by blast
  then have "tr' = tr @ ([Call (CallBuild namespace name buildNumber),
                  Out (WaitingForBuild buildNumber (Status b))] @ suf)
     \<and> filter is_cancel ([Call (CallBuild namespace name buildNumber),
                  Out (WaitingForBuild buildNumber (Status b))] @ suf) = []"
    by simp
  then show ?case by blast
qed

lemma tick_promote_succeeds:
  assumes "Deploy s \<noteq> []"
    and "deploy_build s c entry owner name branch tr = (Inr b, tr1)"
    and "\<not> running_or_pending b \<or> \<not> Wait s"
    and "Promote c tr1 owner name (Number b) (Deploy s) (params s) = Inr newBuild"
  shows "tick s c tm entry owner name branch waiting tr =
           triggered s c tm owner name newBuild
             (tr1 @ [Call (CallPromote owner name (Number b) (Deploy s) (params s)),
                     Out (StartingDeploy owner name (Deploy s) (Number b)),
                     Out (logParams (params s) (ParamsEnv s))])"
  using assms by (auto simp: tick_def Let_def)

lemma rebuild_restart_succeeds:
  assumes "BuildLast c tr owner name branch = Inr b0"
    and "\<not> (Wait s \<and> \<not> waiting \<and> running_or_pending b0)"
    and "(if LastSuccessful s \<and> Status b0 \<noteq> StatusPassing
          then last_successful c entry owner name branch (tr @ [Call (CallBuildLast owner name branch)])
          else (Inr b0, tr @ [Call (CallBuildLast owner name branch)])) = (Inr b, tr1)"
    and "\<not> running_or_pending b \<or> \<not> Wait s"
    and "BuildRestart c tr1 owner name (Number b) (params s) = Inr newBuild"
  shows "rebuild s c tm entry owner name branch waiting tr =
           triggered s c tm owner name newBuild
             (tr1 @ [Call (CallBuildRestart owner name (Number b) (params s)),
                     Out (RestartingBuild (Number b) entry),
                     Out (logParams (params s) (ParamsEnv s))])"
proof (cases "LastSuccessful s \<and> Status b0 \<noteq> StatusPassing")
  case True
  with assms(3) have "last_successful c entry owner name branch
      (tr @ [Call (CallBuildLast owner name branch)]) = (Inr b, tr1)" by simp
  with True assms(1,2,4,5) show ?thesis by (auto simp: rebuild_def Let_def)
next
  case False
  with assms(3) have "b = b0" "tr1 = tr @ [Call (CallBuildLast owner name branch)]"
    by (simp_all split: if_splits)
  with False assms(1,2,4,5) show ?thesis by (auto simp: rebuild_def Let_def)
qed

lemma tick_triggers:
  assumes "(Deploy s \<noteq> []
        \<and> deploy_build s c entry owner name branch tr1 = (Inr b, tr2)
        \<and> (\<not> running_or_pending b \<or> \<not> Wait s)
        \<and> Promote c tr2 owner name (Number b) (Deploy s) (params s) = Inr newBuild
        \<and> tr3 = tr2 @ [Call (CallPromote owner name (Number b) (Deploy s) (params s)),
                        Out (StartingDeploy owner name (Deploy s) (Number b)),
                        Out (logParams (params s) (ParamsEnv s))])
     \<or> (((Deploy s = [] \<and> trR = tr1)
          \<or> (Deploy s \<noteq> [] \<and> Wait s \<and> waiting
              \<and> deploy_build s c entry owner name branch tr1 = (Inr bd, trR)
              \<and> running_or_pending bd))
        \<and> BuildLast c trR owner name branch = Inr b0
        \<and> \<not> (Wait s \<and> \<not> waiting \<and> running_or_pending b0)
        \<and> (if LastSuccessful s \<and> Status b0 \<noteq> StatusPassing
            then last_successful c entry owner name branch
                   (trR @ [Call (CallBuildLast owner name branch)])
            else (Inr b0, trR @ [Call (CallBuildLast owner name branch)])) = (Inr b, tr2)
        \<and> (\<not> running_or_pending b \<or> \<not> Wait s)
        \<and> BuildRestart c tr2 owner name (Number b) (params s) = Inr newBuild
        \<and> tr3 = tr2 @ [Call (CallBuildRestart owner name (Number b) (params s)),
                        Out (RestartingBuild (Number b) entry),
                        Out (logParams (params s) (ParamsEnv s))])"
  shows "tick s c tm entry owner name branch waiting tr1
           = triggered s c tm owner name newBuild tr3"
  using assms
proof (elim disjE)
  assume "Deploy s \<noteq> []
        \<and> deploy_build s c entry owner name branch tr1 = (Inr b, tr2)
        \<and> (\<not> running_or_pending b \<or> \<not> Wait s)
        \<and> Promote c tr2 owner name (Number b) (Deploy s) (params s) = Inr newBuild
        \<and> tr3 = tr2 @ [Call (CallPromote owner name (Number b) (Deploy s) (params s)),
                        Out (StartingDeploy owner name (Deploy s) (Number b)),
                        Out (logParams (params s) (ParamsEnv s))]"
  then have d: "Deploy s \<noteq> []" "deploy_build s c entry owner name branch tr1 = (Inr b, tr2)"
    "\<not> running_or_pending b \<or> \<not> Wait s"
    "Promote c tr2 owner name (Number b) (Deploy s) (params s) = Inr newBuild"
    and tr3: "tr3 = tr2 @ [Call (CallPromote owner name (Number b) (Deploy s) (params s)),
                        Out (StartingDeploy owner name (Deploy s) (Number b)),
                        Out (logParams (params s) (ParamsEnv s))]"
    by simp_all
  show ?thesis unfolding tr3 by (rule tick_promote_succeeds [OF d])
next
  assume a: "((Deploy s = [] \<and> trR = tr1)
          \<or> (Deploy s \<noteq> [] \<and> Wait s \<and> waiting
              \<and> deploy_build s c entry owner name branch tr1 = (Inr bd, trR)
              \<and> running_or_pending bd))
        \<and> BuildLast c trR owner name branch = Inr b0
        \<and> \<not> (Wait s \<and> \<not> waiting \<and> running_or_pending b0)
        \<and> (if LastSuccessful s \<and> Status b0 \<noteq> StatusPassing
            then last_successful c entry owner name branch
                   (trR @ [Call (CallBuildLast owner name branch)])
            else (Inr b0, trR @ [Call (CallBuildLast owner name branch)])) = (Inr b, tr2)
        \<and> (\<not> running_or_pending b \<or> \<not> Wait s)
        \<and> BuildRestart c tr2 owner name (Number b) (params s) = Inr newBuild
        \<and> tr3 = tr2 @ [Call (CallBuildRestart owner name (Number b) (params s)),
                        Out (RestartingBuild (Number b) entry),
                        Out (logParams (params s) (ParamsEnv s))]"
  then have r: "BuildLast c trR owner name branch = Inr b0"
    "\<not> (Wait s \<and> \<not> waiting \<and> running_or_pending b0)"
    "(if LastSuccessful s \<and> Status b0 \<noteq> StatusPassing
            then last_successful c entry owner name branch
                   (trR @ [Call (CallBuildLast owner name branch)])
            else (Inr b0, trR @ [Call (CallBuildLast owner name branch)])) = (Inr b, tr2)"
    "\<not> running_or_pending b \<or> \<not> Wait s"
    "BuildRestart c tr2 owner name (Number b) (params s) = Inr newBuild"
    and tr3: "tr3 = tr2 @ [Call (CallBuildRestart owner name (Number b) (params s)),
                        Out (RestartingBuild (Number b) entry),
                        Out (logParams (params s) (ParamsEnv s))]"
    by simp_all
  from a have "(Deploy s = [] \<and> trR = tr1)
          \<or> (Deploy s \<noteq> [] \<and> Wait s \<and> waiting
              \<and> deploy_build s c entry owner name branch tr1 = (Inr bd, trR)
              \<and> running_or_pending bd)" by blast
  then have "tick s c tm entry owner name branch waiting tr1
      = rebuild s c tm entry owner name branch waiting trR"
    by (auto simp: tick_def)
  then show ?thesis unfolding tr3 using rebuild_restart_succeeds [OF r, of tm] by simp
qed

text \<open>
  The run of an entry whose loop, after \<open>k\<close> ticks that went on, triggers a build and
  blocks on it: what the blocking returns decides how \<open>Execute\<close> goes on.
\<close>

lemma Execute_from_blocks:
  assumes "parseRepoBranch entry = (owner, name, branch)" "owner \<noteq> []" "name \<noteq> []"
    and "Deploy s \<noteq> [] \<longrightarrow> branch \<noteq> [] \<and> (snd (strconv_Atoi branch) \<or> LastSuccessful s)"
    and "after_ticks s c (tms i) entry owner name branch k False tr0 = Some (waiting, tr1)"
    and "k < ticks (tms i)"
    and "tick s c (tms i) entry owner name branch waiting tr1
           = triggered s c (tms i) owner name newBuild tr3"
    and "Block s"
  shows "Execute_from s c tms i (entry # rest) tr0 =
           (case blockUntilBuildIsFinished c (tms i) owner name (Number newBuild) tr3 of
              (Some e, tr') \<Rightarrow> (Some e, tr')
            | (None, tr') \<Rightarrow> Execute_from s c tms (Suc i) rest tr')"
proof -
  from assms(6) have "\<exists>m. ticks (tms i) = k + Suc m" by presburger
  then obtain m where m: "ticks (tms i) = k + Suc m" by blast
  have 1: "tick_loop s c (tms i) entry owner name branch (k + Suc m) False tr0
       = tick_loop s c (tms i) entry owner name branch (Suc m) waiting tr1"
    by (rule tick_loop_after [OF assms(5)])
  have 2: "tick_loop s c (tms i) entry owner name branch (Suc m) waiting tr1
       = blockUntilBuildIsFinished c (tms i) owner name (Number newBuild) tr3"
    using tick_loop_triggered [OF assms(7), of m] assms(8) by (simp only: if_True)
  have 3: "tick_loop s c (tms i) entry owner name branch (ticks (tms i)) False tr0
       = blockUntilBuildIsFinished c (tms i) owner name (Number newBuild) tr3"
    by (simp only: m 1 2)
  show ?thesis
    by (simp only: Execute_from_entry [OF assms(1,2,3,4)] 3)
qed

section \<open>Blocking\<close>

text \<open>
  C10. An entry whose tick loop, after \<open>k\<close> ticks that went on (so with any value of
  \<open>waiting\<close>), triggers a build, by the promote of the deploy trigger or by the
  restart of the rebuild, and blocks on it. The blocking comes through \<open>j\<close> ticks
  at which the build is in no final status, and at the next tick the fetch by number
  fails. Then \<open>Execute\<close> returns that very error; the trace ends with the failed fetch,
  so nothing is tried again, and the entries after it are not processed.
\<close>

theorem block_fetch_error_aborts_run:
  assumes "parseRepoBranch entry = (owner, name, branch)" "owner \<noteq> []" "name \<noteq> []"
    and "Deploy s \<noteq> [] \<longrightarrow> branch \<noteq> [] \<and> (snd (strconv_Atoi branch) \<or> LastSuccessful s)"
    and "after_ticks s c (tms i) entry owner name branch k False tr0 = Some (waiting, tr1)"
    and "k < ticks (tms i)"
    and "(Deploy s \<noteq> []
        \<and> deploy_build s c entry owner name branch tr1 = (Inr b, tr2)
        \<and> (\<not> running_or_pending b \<or> \<not> Wait s)
        \<and> Promote c tr2 owner name (Number b) (Deploy s) (params s) = Inr newBuild
        \<and> tr3 = tr2 @ [Call (CallPromote owner name (Number b) (Deploy s) (params s)),
                        Out (StartingDeploy owner name (Deploy s) (Number b)),
                        Out (logParams (params s) (ParamsEnv s))])
     \<or> (((Deploy s = [] \<and> trR = tr1)
          \<or> (Deploy s \<noteq> [] \<and> Wait s \<and> waiting
              \<and> deploy_build s c entry owner name branch tr1 = (Inr bd, trR)
              \<and> running_or_pending bd))
        \<and> BuildLast c trR owner name branch = Inr b0
        \<and> \<not> (Wait s \<and> \<not> waiting \<and> running_or_pending b0)
        \<and> (if LastSuccessful s \<and> Status b0 \<noteq> StatusPassing
            then last_successful c entry owner name branch
                   (trR @ [Call (CallBuildLast owner name branch)])
            else (Inr b0, trR @ [Call (CallBuildLast owner name branch)])) = (Inr b, tr2)
        \<and> (\<not> running_or_pending b \<or> \<not> Wait s)
        \<and> BuildRestart c tr2 owner name (Number b) (params s) = Inr newBuild
        \<and> tr3 = tr2 @ [Call (CallBuildRestart owner name (Number b) (params s)),
                        Out (RestartingBuild (Number b) entry),
                        Out (logParams (params s) (ParamsEnv s))])"
    and "Block s"
    and "block_after_ticks c owner name (Number newBuild) j (tr3 @ [Out BlockingUntilFinished])
           = Some tr"
    and "j < block_ticks (tms i)"
    and "Build c tr owner name (Number newBuild) = Inl err"
  shows "Execute_from s c tms i (entry # rest) tr0 =
           (Some (ClientError err), tr @ [Call (CallBuild owner name (Number newBuild))])"
proof -
  have t: "tick s c (tms i) entry owner name branch waiting tr1
           = triggered s c (tms i) owner name newBuild tr3"
    by (rule tick_triggers [OF assms(7)])
  from assms(10) have "\<exists>n. block_ticks (tms i) = j + Suc n" by presburger
  then obtain n where n: "block_ticks (tms i) = j + Suc n" by blast
  have "blockUntilBuildIsFinished c (tms i) owner name (Number newBuild) tr3
      = block_loop c (closed_channel_registered tr3) owner name (Number newBuild) (Suc n)
          (block_end (tms i)) tr"
    unfolding blockUntilBuildIsFinished_def n by (rule block_loop_after [OF assms(9)])
  also have "\<dots> = (Some (ClientError err), tr @ [Call (CallBuild owner name (Number newBuild))])"
    using assms(11) by (simp add: Let_def)
  finally have b: "blockUntilBuildIsFinished c (tms i) owner name (Number newBuild) tr3
      = (Some (ClientError err), tr @ [Call (CallBuild owner name (Number newBuild))])" .
  show ?thesis
    by (simp only: Execute_from_blocks [where tms = tms and i = i, OF assms(1,2,3,4,5,6) t assms(8)] b prod.case option.case)
qed

theorem block_fetch_error_aborts_run_witness:
  "Execute_from (settings0\<lparr>Wait := True, Block := True\<rparr>)
     (failing_fetch_from 9
        (mock (\<lambda>tr. build7 (if length tr < 2 \<or> 7 \<le> length tr
                                then StatusRunning else StatusPassing))))
     (\<lambda>i. timing0\<lparr>block_ticks := 3\<rparr>) 0 [''octo/app'', ''octo/web''] []
   = (Some (ClientError ''503''),
      [Call (CallBuildLast ''octo'' ''app'' []),
       Out (WillRetry ''octo/app'' 7 StatusRunning 60000000000),
       Call (CallBuildLast ''octo'' ''app'' []),
       Call (CallBuildRestart ''octo'' ''app'' 7 Map.empty),
       Out (RestartingBuild 7 ''octo/app''),
       Out (WithParams Map.empty),
       Out BlockingUntilFinished,
       Call (CallBuild ''octo'' ''app'' 8),
       Out (WaitingForBuild 8 StatusRunning),
       Call (CallBuild ''octo'' ''app'' 8)])"
proof -
  let ?s = "settings0\<lparr>Wait := True, Block := True\<rparr>"
  let ?c = "failing_fetch_from 9
        (mock (\<lambda>tr. build7 (if length tr < 2 \<or> 7 \<le> length tr
                                then StatusRunning else StatusPassing)))"
  let ?tm = "timing0\<lparr>block_ticks := 3\<rparr>"
  let ?nb = "\<lparr>Number = 8, Status = StatusPending, Source = ''main''\<rparr>"
  let ?tr1 = "[Call (CallBuildLast ''octo'' ''app'' []),
               Out (WillRetry ''octo/app'' 7 StatusRunning 60000000000)]"
  let ?tr2 = "?tr1 @ [Call (CallBuildLast ''octo'' ''app'' [])]"
  let ?tr3 = "?tr2 @ [Call (CallBuildRestart ''octo'' ''app''
                              (Number (build7 StatusPassing)) (params ?s)),
                      Out (RestartingBuild (Number (build7 StatusPassing)) ''octo/app''),
                      Out (logParams (params ?s) (ParamsEnv ?s))]"
  let ?tr = "[Call (CallBuildLast ''octo'' ''app'' []),
       Out (WillRetry ''octo/app'' 7 StatusRunning 60000000000),
       Call (CallBuildLast ''octo'' ''app'' []),
       Call (CallBuildRestart ''octo'' ''app'' 7 Map.empty),
       Out (RestartingBuild 7 ''octo/app''),
       Out (WithParams Map.empty),
       Out BlockingUntilFinished,
       Call (CallBuild ''octo'' ''app'' 8),
       Out (WaitingForBuild 8 StatusRunning)]"
  have p: "parseRepoBranch ''octo/app'' = (''octo'', ''app'', [])" "''octo'' \<noteq> []" "''app'' \<noteq> []"
    by (simp_all add: parse_eval)
  have d: "Deploy ?s \<noteq> [] \<longrightarrow> [] \<noteq> [] \<and> (snd (strconv_Atoi []) \<or> LastSuccessful ?s)"
    by (simp add: settings0_def)
  have a: "after_ticks ?s ?c ?tm ''octo/app'' ''octo'' ''app'' [] (Suc 0) False []
             = Some (True, ?tr1)"
    by (simp add: all_eval)
  have k: "Suc 0 < ticks ?tm" by (simp add: timing0_def)
  have trig: "(Deploy ?s \<noteq> []
        \<and> deploy_build ?s ?c ''octo/app'' ''octo'' ''app'' [] ?tr1 = (Inr (build7 StatusPassing), ?tr2)
        \<and> (\<not> running_or_pending (build7 StatusPassing) \<or> \<not> Wait ?s)
        \<and> Promote ?c ?tr2 ''octo'' ''app'' (Number (build7 StatusPassing)) (Deploy ?s) (params ?s) = Inr ?nb
        \<and> ?tr3 = ?tr2 @ [Call (CallPromote ''octo'' ''app'' (Number (build7 StatusPassing)) (Deploy ?s) (params ?s)),
                        Out (StartingDeploy ''octo'' ''app'' (Deploy ?s) (Number (build7 StatusPassing))),
                        Out (logParams (params ?s) (ParamsEnv ?s))])
     \<or> (((Deploy ?s = [] \<and> ?tr1 = ?tr1)
          \<or> (Deploy ?s \<noteq> [] \<and> Wait ?s \<and> True
              \<and> deploy_build ?s ?c ''octo/app'' ''octo'' ''app'' [] ?tr1 = (Inr (build7 StatusPassing), ?tr1)
              \<and> running_or_pending (build7 StatusPassing)))
        \<and> BuildLast ?c ?tr1 ''octo'' ''app'' [] = Inr (build7 StatusPassing)
        \<and> \<not> (Wait ?s \<and> \<not> True \<and> running_or_pending (build7 StatusPassing))
        \<and> (if LastSuccessful ?s \<and> Status (build7 StatusPassing) \<noteq> StatusPassing
            then last_successful ?c ''octo/app'' ''octo'' ''app'' []
                   (?tr1 @ [Call (CallBuildLast ''octo'' ''app'' [])])
            else (Inr (build7 StatusPassing), ?tr1 @ [Call (CallBuildLast ''octo'' ''app'' [])]))
           = (Inr (build7 StatusPassing), ?tr2)
        \<and> (\<not> running_or_pending (build7 StatusPassing) \<or> \<not> Wait ?s)
        \<and> BuildRestart ?c ?tr2 ''octo'' ''app'' (Number (build7 StatusPassing)) (params ?s) = Inr ?nb
        \<and> ?tr3 = ?tr2 @ [Call (CallBuildRestart ''octo'' ''app'' (Number (build7 StatusPassing)) (params ?s)),
                        Out (RestartingBuild (Number (build7 StatusPassing)) ''octo/app''),
                        Out (logParams (params ?s) (ParamsEnv ?s))])"
    by (simp add: all_eval)
  have bs: "Block ?s" by (simp add: settings0_def)
  have ba: "block_after_ticks ?c ''octo'' ''app'' (Number ?nb) (Suc 0)
              (?tr3 @ [Out BlockingUntilFinished]) = Some ?tr"
    by (simp add: all_eval)
  have j: "Suc 0 < block_ticks ?tm" by simp
  have f: "Build ?c ?tr ''octo'' ''app'' (Number ?nb) = Inl ''503''"
    by (simp add: all_eval)
  show ?thesis
    using block_fetch_error_aborts_run [where tms = "\<lambda>i. ?tm" and i = 0 and rest = "[''octo/web'']",
        OF p d a k trig bs ba j f]
    by simp
qed


text \<open>
  C4 does not hold of the code. An entry triggers a build and blocks on it, in the
  first blocking of the process; the build is in no final status at the ticks of the
  blocking, which a signal ends. Then no cancel request is made before the signal, and
  exactly one at it. When the cancel call fails, \<open>Execute\<close> returns the error "could
  not cancel". When it succeeds, the blocking returns \<open>nil\<close>, and \<open>Execute\<close> goes on
  with the entries that are left, from the trace that ends with the line on the
  cancelled job: the run does not end there, and ends without an error unless a later
  step fails.
\<close>

theorem signal_cancel_then_run_goes_on:
  assumes "parseRepoBranch entry = (owner, name, branch)" "owner \<noteq> []" "name \<noteq> []"
    and "Deploy s \<noteq> [] \<longrightarrow> branch \<noteq> [] \<and> (snd (strconv_Atoi branch) \<or> LastSuccessful s)"
    and "after_ticks s c (tms i) entry owner name branch k False tr0 = Some (waiting, tr1)"
    and "k < ticks (tms i)"
    and "(Deploy s \<noteq> []
        \<and> deploy_build s c entry owner name branch tr1 = (Inr b, tr2)
        \<and> (\<not> running_or_pending b \<or> \<not> Wait s)
        \<and> Promote c tr2 owner name (Number b) (Deploy s) (params s) = Inr newBuild
        \<and> tr3 = tr2 @ [Call (CallPromote owner name (Number b) (Deploy s) (params s)),
                        Out (StartingDeploy owner name (Deploy s) (Number b)),
                        Out (logParams (params s) (ParamsEnv s))])
     \<or> (((Deploy s = [] \<and> trR = tr1)
          \<or> (Deploy s \<noteq> [] \<and> Wait s \<and> waiting
              \<and> deploy_build s c entry owner name branch tr1 = (Inr bd, trR)
              \<and> running_or_pending bd))
        \<and> BuildLast c trR owner name branch = Inr b0
        \<and> \<not> (Wait s \<and> \<not> waiting \<and> running_or_pending b0)
        \<and> (if LastSuccessful s \<and> Status b0 \<noteq> StatusPassing
            then last_successful c entry owner name branch
                   (trR @ [Call (CallBuildLast owner name branch)])
            else (Inr b0, trR @ [Call (CallBuildLast owner name branch)])) = (Inr b, tr2)
        \<and> (\<not> running_or_pending b \<or> \<not> Wait s)
        \<and> BuildRestart c tr2 owner name (Number b) (params s) = Inr newBuild
        \<and> tr3 = tr2 @ [Call (CallBuildRestart owner name (Number b) (params s)),
                        Out (RestartingBuild (Number b) entry),
                        Out (logParams (params s) (ParamsEnv s))])"
    and "Block s"
    and "\<not> closed_channel_registered tr3"
    and "block_after_ticks c owner name (Number newBuild) (block_ticks (tms i))
           (tr3 @ [Out BlockingUntilFinished]) = Some tr"
    and "block_end (tms i) = Signal"
  shows "(\<exists>suf. tr = tr3 @ suf \<and> filter is_cancel suf = [])
       \<and> (\<forall>e. BuildCancel c tr owner name (Number newBuild) = Some e \<longrightarrow>
             Execute_from s c tms i (entry # rest) tr0 =
               (Some (CouldNotCancel (Number newBuild)),
                tr @ [Call (CallBuildCancel owner name (Number newBuild))]))
       \<and> (BuildCancel c tr owner name (Number newBuild) = None \<longrightarrow>
             Execute_from s c tms i (entry # rest) tr0 =
               Execute_from s c tms (Suc i) rest
                 (tr @ [Call (CallBuildCancel owner name (Number newBuild)),
                        Out (CanceledJob (Number newBuild))]))"
proof (intro conjI allI impI)
  from block_after_ticks_no_cancel [OF assms(10)] obtain suf where
    "tr = (tr3 @ [Out BlockingUntilFinished]) @ suf" "filter is_cancel suf = []" by blast
  then have "tr = tr3 @ (Out BlockingUntilFinished # suf)
      \<and> filter is_cancel (Out BlockingUntilFinished # suf) = []" by simp
  then show "\<exists>suf. tr = tr3 @ suf \<and> filter is_cancel suf = []" by blast
next
  have t: "tick s c (tms i) entry owner name branch waiting tr1
           = triggered s c (tms i) owner name newBuild tr3"
    by (rule tick_triggers [OF assms(7)])
  have "blockUntilBuildIsFinished c (tms i) owner name (Number newBuild) tr3
      = block_loop c False owner name (Number newBuild) (block_ticks (tms i) + 0) Signal
          (tr3 @ [Out BlockingUntilFinished])"
    using assms(9,11) by (simp add: blockUntilBuildIsFinished_def)
  also have "\<dots> = block_loop c False owner name (Number newBuild) 0 Signal tr"
    by (rule block_loop_after [OF assms(10)])
  finally have b: "blockUntilBuildIsFinished c (tms i) owner name (Number newBuild) tr3
      = block_loop c False owner name (Number newBuild) 0 Signal tr" .
  note run = Execute_from_blocks [where tms = tms and i = i, OF assms(1,2,3,4,5,6) t assms(8)]
  {
    fix e assume "BuildCancel c tr owner name (Number newBuild) = Some e"
    then have "block_loop c False owner name (Number newBuild) 0 Signal tr
       = (Some (CouldNotCancel (Number newBuild)),
                tr @ [Call (CallBuildCancel owner name (Number newBuild))])" by simp
    with b show "Execute_from s c tms i (entry # rest) tr0 =
               (Some (CouldNotCancel (Number newBuild)),
                tr @ [Call (CallBuildCancel owner name (Number newBuild))])"
      by (simp only: run prod.case option.case)
  }
  {
    assume "BuildCancel c tr owner name (Number newBuild) = None"
    then have "block_loop c False owner name (Number newBuild) 0 Signal tr
       = (None, tr @ [Call (CallBuildCancel owner name (Number newBuild)),
                        Out (CanceledJob (Number newBuild))])" by simp
    with b show "Execute_from s c tms i (entry # rest) tr0 =
               Execute_from s c tms (Suc i) rest
                 (tr @ [Call (CallBuildCancel owner name (Number newBuild)),
                        Out (CanceledJob (Number newBuild))])"
      by (simp only: run prod.case option.case)
  }
qed

text \<open>
  Two runs on the entries \<open>octo/app\<close> and \<open>octo/web\<close> with \<open>block\<close> set, a signal
  ending each blocking after one tick. In the first run the build of \<open>octo/web\<close> has
  passed at the first tick of its blocking: after the cancelled build of \<open>octo/app\<close>,
  \<open>Execute\<close> restarts a build of \<open>octo/web\<close> and returns \<open>nil\<close>. In the second run
  that build is still running when the second signal comes: the channel that the
  first blocking closed is still registered, and the process panics with no cancel
  request made.
\<close>

theorem signal_cancel_then_run_goes_on_witness:
  "Execute (settings0\<lparr>Repos := [''octo/app'', ''octo/web''], Block := True\<rparr>)
     (mock (\<lambda>tr. build7 (if length tr < 14 then StatusRunning else StatusPassing)))
     (\<lambda>i. timing0\<lparr>block_ticks := 1, block_end := Signal\<rparr>)
   = (None,
      [Call (CallBuildLast ''octo'' ''app'' []),
       Call (CallBuildRestart ''octo'' ''app'' 7 Map.empty),
       Out (RestartingBuild 7 ''octo/app''),
       Out (WithParams Map.empty),
       Out BlockingUntilFinished,
       Call (CallBuild ''octo'' ''app'' 8),
       Out (WaitingForBuild 8 StatusRunning),
       Call (CallBuildCancel ''octo'' ''app'' 8),
       Out (CanceledJob 8),
       Call (CallBuildLast ''octo'' ''web'' []),
       Call (CallBuildRestart ''octo'' ''web'' 7 Map.empty),
       Out (RestartingBuild 7 ''octo/web''),
       Out (WithParams Map.empty),
       Out BlockingUntilFinished,
       Call (CallBuild ''octo'' ''web'' 8)])
   \<and> Execute (settings0\<lparr>Repos := [''octo/app'', ''octo/web''], Block := True\<rparr>)
     (mock (\<lambda>tr. build7 StatusRunning))
     (\<lambda>i. timing0\<lparr>block_ticks := 1, block_end := Signal\<rparr>)
   = (Some PanicSendOnClosedChannel,
      [Call (CallBuildLast ''octo'' ''app'' []),
       Call (CallBuildRestart ''octo'' ''app'' 7 Map.empty),
       Out (RestartingBuild 7 ''octo/app''),
       Out (WithParams Map.empty),
       Out BlockingUntilFinished,
       Call (CallBuild ''octo'' ''app'' 8),
       Out (WaitingForBuild 8 StatusRunning),
       Call (CallBuildCancel ''octo'' ''app'' 8),
       Out (CanceledJob 8),
       Call (CallBuildLast ''octo'' ''web'' []),
       Call (CallBuildRestart ''octo'' ''web'' 7 Map.empty),
       Out (RestartingBuild 7 ''octo/web''),
       Out (WithParams Map.empty),
       Out BlockingUntilFinished,
       Call (CallBuild ''octo'' ''web'' 8),
       Out (WaitingForBuild 8 StatusRunning)])"
proof -
  let ?s = "settings0\<lparr>Repos := [''octo/app'', ''octo/web''], Block := True\<rparr>"
  let ?tm = "timing0\<lparr>block_ticks := 1, block_end := Signal\<rparr>"
  let ?b0 = "build7 StatusRunning"
  let ?nb = "\<lparr>Number = 8, Status = StatusPending, Source = ''main''\<rparr>"
  let ?tr2 = "[] @ [Call (CallBuildLast ''octo'' ''app'' [])]"
  let ?tr3 = "?tr2 @ [Call (CallBuildRestart ''octo'' ''app'' (Number ?b0) (params ?s)),
                      Out (RestartingBuild (Number ?b0) ''octo/app''),
                      Out (logParams (params ?s) (ParamsEnv ?s))]"
  let ?tr = "[Call (CallBuildLast ''octo'' ''app'' []),
       Call (CallBuildRestart ''octo'' ''app'' 7 Map.empty),
       Out (RestartingBuild 7 ''octo/app''),
       Out (WithParams Map.empty),
       Out BlockingUntilFinished,
       Call (CallBuild ''octo'' ''app'' 8),
       Out (WaitingForBuild 8 StatusRunning)]"
  have p: "parseRepoBranch ''octo/app'' = (''octo'', ''app'', [])" "''octo'' \<noteq> []" "''app'' \<noteq> []"
    by (simp_all add: parse_eval)
  have d: "Deploy ?s \<noteq> [] \<longrightarrow> [] \<noteq> [] \<and> (snd (strconv_Atoi []) \<or> LastSuccessful ?s)"
    by (simp add: settings0_def)
  have k: "0 < ticks ?tm" by (simp add: timing0_def)
  have bs: "Block ?s" by (simp add: settings0_def)
  have e: "block_end ?tm = Signal" by simp
  have first: "\<not> closed_channel_registered ?tr3"
    by (simp add: closed_channel_registered_def logParams_def)
  have run: "Execute_from ?s c (\<lambda>i. ?tm) 0 (''octo/app'' # [''octo/web'']) [] =
               Execute_from ?s c (\<lambda>i. ?tm) (Suc 0) [''octo/web'']
                 (?tr @ [Call (CallBuildCancel ''octo'' ''app'' (Number ?nb)),
                        Out (CanceledJob (Number ?nb))])"
    if c: "c = mock (\<lambda>tr. build7 (if length tr < 14 then StatusRunning else StatusPassing))
           \<or> c = mock (\<lambda>tr. build7 StatusRunning)" for c
  proof -
    have a: "after_ticks ?s c ?tm ''octo/app'' ''octo'' ''app'' [] 0 False [] = Some (False, [])"
      by simp
    have trig: "(Deploy ?s \<noteq> []
        \<and> deploy_build ?s c ''octo/app'' ''octo'' ''app'' [] [] = (Inr ?b0, ?tr2)
        \<and> (\<not> running_or_pending ?b0 \<or> \<not> Wait ?s)
        \<and> Promote c ?tr2 ''octo'' ''app'' (Number ?b0) (Deploy ?s) (params ?s) = Inr ?nb
        \<and> ?tr3 = ?tr2 @ [Call (CallPromote ''octo'' ''app'' (Number ?b0) (Deploy ?s) (params ?s)),
                        Out (StartingDeploy ''octo'' ''app'' (Deploy ?s) (Number ?b0)),
                        Out (logParams (params ?s) (ParamsEnv ?s))])
     \<or> (((Deploy ?s = [] \<and> [] = ([]::trace))
          \<or> (Deploy ?s \<noteq> [] \<and> Wait ?s \<and> False
              \<and> deploy_build ?s c ''octo/app'' ''octo'' ''app'' [] [] = (Inr ?b0, [])
              \<and> running_or_pending ?b0))
        \<and> BuildLast c [] ''octo'' ''app'' [] = Inr ?b0
        \<and> \<not> (Wait ?s \<and> \<not> False \<and> running_or_pending ?b0)
        \<and> (if LastSuccessful ?s \<and> Status ?b0 \<noteq> StatusPassing
            then last_successful c ''octo/app'' ''octo'' ''app'' []
                   ([] @ [Call (CallBuildLast ''octo'' ''app'' [])])
            else (Inr ?b0, [] @ [Call (CallBuildLast ''octo'' ''app'' [])]))
           = (Inr ?b0, ?tr2)
        \<and> (\<not> running_or_pending ?b0 \<or> \<not> Wait ?s)
        \<and> BuildRestart c ?tr2 ''octo'' ''app'' (Number ?b0) (params ?s) = Inr ?nb
        \<and> ?tr3 = ?tr2 @ [Call (CallBuildRestart ''octo'' ''app'' (Number ?b0) (params ?s)),
                        Out (RestartingBuild (Number ?b0) ''octo/app''),
                        Out (logParams (params ?s) (ParamsEnv ?s))])"
      using c by (auto simp: all_eval)
    have ba: "block_after_ticks c ''octo'' ''app'' (Number ?nb) (block_ticks ?tm)
              (?tr3 @ [Out BlockingUntilFinished]) = Some ?tr"
      using c by (auto simp: all_eval)
    have ok: "BuildCancel c ?tr ''octo'' ''app'' (Number ?nb) = None"
      using c by (auto simp: all_eval)
    show ?thesis
      using signal_cancel_then_run_goes_on [where tms = "\<lambda>i. ?tm" and i = 0 and rest = "[''octo/web'']",
          OF p d a k trig bs first ba e, THEN conjunct2, THEN conjunct2, rule_format, OF ok]
      by simp
  qed
  have r1: "Execute_from ?s
      (mock (\<lambda>tr. build7 (if length tr < 14 then StatusRunning else StatusPassing)))
      (\<lambda>i. ?tm) (Suc 0) [''octo/web'']
      (?tr @ [Call (CallBuildCancel ''octo'' ''app'' (Number ?nb)), Out (CanceledJob (Number ?nb))])
    = (None,
       ?tr @ [Call (CallBuildCancel ''octo'' ''app'' 8),
       Out (CanceledJob 8),
       Call (CallBuildLast ''octo'' ''web'' []),
       Call (CallBuildRestart ''octo'' ''web'' 7 Map.empty),
       Out (RestartingBuild 7 ''octo/web''),
       Out (WithParams Map.empty),
       Out BlockingUntilFinished,
       Call (CallBuild ''octo'' ''web'' 8)])"
    by (simp add: all_eval)
  have r2: "Execute_from ?s (mock (\<lambda>tr. build7 StatusRunning))
      (\<lambda>i. ?tm) (Suc 0) [''octo/web'']
      (?tr @ [Call (CallBuildCancel ''octo'' ''app'' (Number ?nb)), Out (CanceledJob (Number ?nb))])
    = (Some PanicSendOnClosedChannel,
       ?tr @ [Call (CallBuildCancel ''octo'' ''app'' 8),
       Out (CanceledJob 8),
       Call (CallBuildLast ''octo'' ''web'' []),
       Call (CallBuildRestart ''octo'' ''web'' 7 Map.empty),
       Out (RestartingBuild 7 ''octo/web''),
       Out (WithParams Map.empty),
       Out BlockingUntilFinished,
       Call (CallBuild ''octo'' ''web'' 8),
       Out (WaitingForBuild 8 StatusRunning)])"
    by (simp add: all_eval)
  have rp: "Repos ?s = ''octo/app'' # [''octo/web'']" by (simp add: settings0_def)
  show ?thesis
    unfolding Execute_def rp
    by (simp only: run [OF disjI1 [OF refl]] run [OF disjI2 [OF refl]] r1 r2) simp
qed

end
